theory Spec2Isabelle
  imports Main "HOL-Library.Sublist" "HOL-Library.AList"
begin

section \<open>Python values the program relies on\<close>

text \<open>
  The program is \<^verbatim>\<open>toe_popper.py\<close>. Exceptions are values: every function that can
  raise returns \<open>py_error + 'a\<close>, with \<open>Inl\<close> for the exception.
\<close>

datatype py_error =
  ValueError | ZeroDivisionError | OverflowError | KeyError | TypeError | AttributeError
  | ComError

subsection \<open>Strings\<close>

text \<open>
  A \<open>char\<close> stands for a code point below 256. \<open>isspace\<close>, \<open>strip\<close> and \<open>lower\<close> are
  Python's \<^verbatim>\<open>str.isspace\<close>, \<^verbatim>\<open>str.strip()\<close> and \<^verbatim>\<open>str.lower()\<close> on that range.
\<close>

definition isspace :: "char \<Rightarrow> bool" where
  "isspace c \<longleftrightarrow> (of_char c :: nat) \<in> {9, 10, 11, 12, 13, 28, 29, 30, 31, 32, 133, 160}"

definition strip :: "string \<Rightarrow> string" where
  "strip s = rev (dropWhile isspace (rev (dropWhile isspace s)))"

definition lower_char :: "char \<Rightarrow> char" where
  "lower_char c =
     (let n = (of_char c :: nat)
      in if (65 \<le> n \<and> n \<le> 90) \<or> (192 \<le> n \<and> n \<le> 222 \<and> n \<noteq> 215)
         then char_of (n + 32) else c)"

definition lower :: "string \<Rightarrow> string" where
  "lower s = map lower_char s"

text \<open>\<^verbatim>\<open>sub in s\<close> on strings: \<open>sub\<close> occurs in \<open>s\<close> as a contiguous run.\<close>

fun str_in :: "string \<Rightarrow> string \<Rightarrow> bool" where
  "str_in sub [] = (sub = [])"
| "str_in sub (c # cs) = (prefix sub (c # cs) \<or> str_in sub cs)"

text \<open>\<^verbatim>\<open>s.split(sep)\<close> for a one-character separator: always at least one part.\<close>

fun split_on :: "char \<Rightarrow> string \<Rightarrow> string list" where
  "split_on sep [] = [[]]"
| "split_on sep (c # cs) =
     (if c = sep then [] # split_on sep cs
      else (c # hd (split_on sep cs)) # tl (split_on sep cs))"

text \<open>
  \<^verbatim>\<open>int(s)\<close> on a string: surrounding white space is dropped, one sign is allowed, then
  decimal digits, where single underscores may stand between two digits. Anything else
  raises \<^verbatim>\<open>ValueError\<close>. The white space of \<^verbatim>\<open>int\<close> is not that of \<^verbatim>\<open>str.strip\<close>: the
  separators U+001C to U+001F are left where they are, and make the string invalid. The
  interpreter's limit on the number of digits is not modelled.
\<close>

definition int_space :: "char \<Rightarrow> bool" where
  "int_space c \<longleftrightarrow> (of_char c :: nat) \<in> {9, 10, 11, 12, 13, 32, 133, 160}"

definition is_digit :: "char \<Rightarrow> bool" where
  "is_digit c \<longleftrightarrow> 48 \<le> (of_char c :: nat) \<and> (of_char c :: nat) \<le> 57"

fun digits_val :: "nat \<Rightarrow> string \<Rightarrow> nat option" where
  "digits_val acc [] = Some acc"
| "digits_val acc (c # cs) =
     (if is_digit c then digits_val (acc * 10 + (of_char c - 48)) cs
      else if c = CHR ''_'' \<and> cs \<noteq> [] \<and> is_digit (hd cs) then digits_val acc cs
      else None)"

definition py_int :: "string \<Rightarrow> py_error + int" where
  "py_int s =
     (let t = rev (dropWhile int_space (rev (dropWhile int_space s)));
          neg = (t \<noteq> [] \<and> hd t = CHR ''-'');
          r = (if t \<noteq> [] \<and> (hd t = CHR ''-'' \<or> hd t = CHR ''+'') then tl t else t)
      in if r = [] \<or> \<not> is_digit (hd r) then Inl ValueError
         else (case digits_val 0 r of
                 None \<Rightarrow> Inl ValueError
               | Some n \<Rightarrow> Inr (if neg then - int n else int n)))"

subsection \<open>Naive local datetimes\<close>

text \<open>
  A \<^verbatim>\<open>datetime\<close> without time zone. The calendar date is kept as one number, the day
  count of \<^verbatim>\<open>date.toordinal()\<close>; the program never looks inside it but to print it.
  Python's datetimes run from day 1 (1 January of year 1) to day 3652059 (31 December
  9999).
\<close>

record datetime =
  ordinal :: int
  hour :: int
  minute :: int
  second :: int
  microsecond :: int

definition valid_datetime :: "datetime \<Rightarrow> bool" where
  "valid_datetime d \<longleftrightarrow>
     0 \<le> hour d \<and> hour d < 24 \<and> 0 \<le> minute d \<and> minute d < 60 \<and>
     0 \<le> second d \<and> second d < 60 \<and> 0 \<le> microsecond d \<and> microsecond d < 1000000"

text \<open>Microseconds since the start of day 0: the order and the differences of datetimes.\<close>

definition to_us :: "datetime \<Rightarrow> int" where
  "to_us d = (((ordinal d * 24 + hour d) * 60 + minute d) * 60 + second d) * 1000000
               + microsecond d"

definition of_us :: "int \<Rightarrow> datetime" where
  "of_us x =
     \<lparr>ordinal = x div 1000000 div 60 div 60 div 24,
      hour = x div 1000000 div 60 div 60 mod 24,
      minute = x div 1000000 div 60 mod 60,
      second = x div 1000000 mod 60,
      microsecond = x mod 1000000\<rparr>"

definition MINORDINAL :: int where
  "MINORDINAL = 1"

definition MAXORDINAL :: int where
  "MAXORDINAL = 3652059"

definition in_datetime_range :: "datetime \<Rightarrow> bool" where
  "in_datetime_range d \<longleftrightarrow> MINORDINAL \<le> ordinal d \<and> ordinal d \<le> MAXORDINAL"

text \<open>
  \<^verbatim>\<open>timedelta(minutes=k)\<close> exists when its whole days, \<^verbatim>\<open>k // 1440\<close>, are at most 999999999
  in magnitude; otherwise the constructor raises \<^verbatim>\<open>OverflowError\<close>.
\<close>

definition timedelta_minutes_ok :: "int \<Rightarrow> bool" where
  "timedelta_minutes_ok k \<longleftrightarrow> - 999999999 \<le> k div 1440 \<and> k div 1440 \<le> 999999999"

text \<open>
  \<^verbatim>\<open>d + timedelta(minutes=k)\<close>: \<^verbatim>\<open>OverflowError\<close> when the timedelta cannot be built or the
  sum leaves the range of datetimes.
\<close>

definition add_minutes :: "datetime \<Rightarrow> int \<Rightarrow> py_error + datetime" where
  "add_minutes d k =
     (if \<not> timedelta_minutes_ok k then Inl OverflowError
      else (let r = of_us (to_us d + k * 60000000)
            in if in_datetime_range r then Inr r else Inl OverflowError))"

text \<open>
  \<^verbatim>\<open>d.replace(minute=m, second=0, microsecond=0)\<close> and
  \<^verbatim>\<open>d.replace(hour=h, minute=m, second=0, microsecond=0)\<close>: a field out of range raises
  \<^verbatim>\<open>ValueError\<close>.
\<close>

definition replace_minute :: "datetime \<Rightarrow> int \<Rightarrow> py_error + datetime" where
  "replace_minute d m =
     (if 0 \<le> m \<and> m < 60 then Inr (d\<lparr>minute := m, second := 0, microsecond := 0\<rparr>)
      else Inl ValueError)"

definition replace_hour_minute :: "datetime \<Rightarrow> int \<Rightarrow> int \<Rightarrow> py_error + datetime" where
  "replace_hour_minute d h m =
     (if 0 \<le> h \<and> h < 24 \<and> 0 \<le> m \<and> m < 60
      then Inr (d\<lparr>hour := h, minute := m, second := 0, microsecond := 0\<rparr>)
      else Inl ValueError)"

text \<open>\<^verbatim>\<open>d.replace(second=0, microsecond=0)\<close> cannot raise.\<close>

definition replace_second :: "datetime \<Rightarrow> datetime" where
  "replace_second d = d\<lparr>second := 0, microsecond := 0\<rparr>"

text \<open>\<^verbatim>\<open>a // b\<close> on integers: floor division, \<^verbatim>\<open>ZeroDivisionError\<close> on \<open>b = 0\<close>.\<close>

definition floordiv :: "int \<Rightarrow> int \<Rightarrow> py_error + int" where
  "floordiv a b = (if b = 0 then Inl ZeroDivisionError else Inr (a div b))"

section \<open>Configuration as the program reads it\<close>

text \<open>
  The sections of the configuration at the types the program reads them at. A field the
  program reads with \<^verbatim>\<open>.get(key, default)\<close> is optional, \<open>None\<close> for a missing key.
\<close>

record work_window =
  ww_start :: string
  ww_end :: string
  slot_minutes :: int

record prompt_rules =
  focus_title :: "string option"
  focus_match :: "string option"

record ui_prefs =
  remember_last :: "bool option"
  snooze_minutes :: "int option"

record category =
  outlook_category :: "string option"
  jira_timecodes :: "string list"

record config =
  cfg_work_window :: work_window
  cfg_prompt_rules :: prompt_rules
  cfg_ui :: "ui_prefs option"
  cfg_categories :: "(string \<rightharpoonup> category) option"

section \<open>Time helpers\<close>

text \<open>\<^verbatim>\<open>parse_hhmm\<close>: exactly two parts around one colon, each read by \<^verbatim>\<open>int\<close>.\<close>

definition parse_hhmm :: "string \<Rightarrow> py_error + (int \<times> int)" where
  "parse_hhmm s =
     (case split_on CHR '':'' s of
        [h, m] \<Rightarrow>
          (case py_int h of
             Inl e \<Rightarrow> Inl e
           | Inr hh \<Rightarrow> (case py_int m of Inl e \<Rightarrow> Inl e | Inr mm \<Rightarrow> Inr (hh, mm)))
      | _ \<Rightarrow> Inl ValueError)"

text \<open>
  \<^verbatim>\<open>current_slot\<close>; its first argument is the clock reading \<^verbatim>\<open>n = now_local()\<close>.
\<close>

definition current_slot :: "datetime \<Rightarrow> int \<Rightarrow> py_error + (datetime \<times> datetime)" where
  "current_slot n mins =
     (case (if mins = 30 then Inr (if minute n < 30 then 0 else 30)
            else (case floordiv (minute n) mins of
                    Inl e \<Rightarrow> Inl e
                  | Inr q \<Rightarrow> Inr (q * mins))) of
        Inl e \<Rightarrow> Inl e
      | Inr m \<Rightarrow>
          (case replace_minute n m of
             Inl e \<Rightarrow> Inl e
           | Inr start \<Rightarrow>
               (case add_minutes start mins of
                  Inl e \<Rightarrow> Inl e
                | Inr stop \<Rightarrow> Inr (start, stop))))"

text \<open>\<^verbatim>\<open>within_work_window\<close>\<close>

definition within_work_window :: "config \<Rightarrow> datetime \<Rightarrow> py_error + bool" where
  "within_work_window cfg t =
     (case parse_hhmm (ww_start (cfg_work_window cfg)) of
        Inl e \<Rightarrow> Inl e
      | Inr (sh, sm) \<Rightarrow>
          (case parse_hhmm (ww_end (cfg_work_window cfg)) of
             Inl e \<Rightarrow> Inl e
           | Inr (eh, em) \<Rightarrow>
               (case replace_hour_minute t sh sm of
                  Inl e \<Rightarrow> Inl e
                | Inr s \<Rightarrow>
                    (case replace_hour_minute t eh em of
                       Inl e \<Rightarrow> Inl e
                     | Inr e \<Rightarrow> Inr (to_us s \<le> to_us t \<and> to_us t < to_us e)))))"

text \<open>
  \<^verbatim>\<open>compute_slot_for_time\<close>; the last argument is the clock reading of the one
  \<^verbatim>\<open>now_local()\<close> call that the taken branch makes. \<^verbatim>\<open>fake_hhmm\<close> is \<open>None\<close> when the
  \<^verbatim>\<open>--at\<close> flag is absent.
\<close>

definition compute_slot_for_time ::
  "config \<Rightarrow> string option \<Rightarrow> bool \<Rightarrow> datetime \<Rightarrow> py_error + (datetime \<times> datetime)" where
  "compute_slot_for_time cfg fake_hhmm exact_now now =
     (let mins = slot_minutes (cfg_work_window cfg)
      in if exact_now then
           (let t = replace_second now
            in case add_minutes t mins of Inl e \<Rightarrow> Inl e | Inr stop \<Rightarrow> Inr (t, stop))
         else if fake_hhmm = None \<or> fake_hhmm = Some [] then current_slot now mins
         else
           (case parse_hhmm (the fake_hhmm) of
              Inl e \<Rightarrow> Inl e
            | Inr (hh, mm) \<Rightarrow>
                (case replace_hour_minute now hh mm of
                   Inl e \<Rightarrow> Inl e
                 | Inr t \<Rightarrow>
                     (case floordiv (minute t) mins of
                        Inl e \<Rightarrow> Inl e
                      | Inr q \<Rightarrow>
                          (case replace_minute t (q * mins) of
                             Inl e \<Rightarrow> Inl e
                           | Inr start \<Rightarrow>
                               (case add_minutes start mins of
                                  Inl e \<Rightarrow> Inl e
                                | Inr stop \<Rightarrow> Inr (start, stop)))))))"

text \<open>\<^verbatim>\<open>d.get(key, default)\<close> on an optional field.\<close>

definition get_or :: "'a option \<Rightarrow> 'a \<Rightarrow> 'a" where
  "get_or v d = (case v of None \<Rightarrow> d | Some x \<Rightarrow> x)"

section \<open>The Outlook calendar\<close>

text \<open>
  What reading a property of a COM object gives: the object has no such attribute
  (\<^verbatim>\<open>AttributeError\<close>), the read raises another exception, or it returns a value.
\<close>

datatype 'a com_read = NoAttribute | Raises | Got 'a

text \<open>\<^verbatim>\<open>itm.name\<close> and \<^verbatim>\<open>getattr(itm, name, default)\<close>\<close>

definition getattr :: "'a com_read \<Rightarrow> py_error + 'a" where
  "getattr p =
     (case p of NoAttribute \<Rightarrow> Inl AttributeError | Raises \<Rightarrow> Inl ComError | Got v \<Rightarrow> Inr v)"

definition getattr_default :: "'a com_read \<Rightarrow> 'a \<Rightarrow> py_error + 'a" where
  "getattr_default p d =
     (case p of NoAttribute \<Rightarrow> Inr d | Raises \<Rightarrow> Inl ComError | Got v \<Rightarrow> Inr v)"

text \<open>
  Outlook's \<^verbatim>\<open>RecurrenceState\<close> of an appointment item: not recurring, the definition of a
  series, one occurrence of a series, or an occurrence that was changed. The program never
  reads it.
\<close>

datatype recurrence_state = olApptNotRecurring | olApptMaster | olApptOccurrence | olApptException

text \<open>
  An item of \<^verbatim>\<open>calendar.Items\<close>. \<open>item_id\<close> names the COM object; each property that the
  program reads is there with what the read gives. A subject may be \<^verbatim>\<open>None\<close>.
\<close>

record ol_item =
  item_id :: nat
  RecurrenceState :: recurrence_state
  AllDayEvent :: "bool com_read"
  ol_Subject :: "string option com_read"
  ol_Start :: "datetime com_read"
  ol_End :: "datetime com_read"
  ol_BusyStatus :: "int com_read"

text \<open>
  \<^verbatim>\<open>ol_time_str\<close> prints \<^verbatim>\<open>%m/%d/%Y %H:%M\<close>: the date, the hour and the minute, which is
  what the model keeps of the string.
\<close>

type_synonym time_str = "int \<times> int \<times> int"

definition ol_time_str :: "datetime \<Rightarrow> time_str" where
  "ol_time_str dt = (ordinal dt, hour dt, minute dt)"

text \<open>
  \<^verbatim>\<open>items.Restrict\<close> is Outlook's: \<open>Restrict items allday a b\<close> is the answer to the
  restriction built from the slot's start \<open>a\<close> and end \<open>b\<close>, with the
  \<^verbatim>\<open>[AllDayEvent] = False\<close> clause when \<open>allday\<close> holds; \<open>None\<close> when the call raises.
  \<open>IncludeRecurrences\<close> is the collection's property of that name.
\<close>

record ol_items =
  IncludeRecurrences :: bool
  Restrict :: "bool \<Rightarrow> time_str \<Rightarrow> time_str \<Rightarrow> ol_item list option"

text \<open>
  \<^verbatim>\<open>outlook_open_default_calendar\<close>, as far as the collection goes: the items of the default
  calendar folder with \<^verbatim>\<open>IncludeRecurrences\<close> set. Sorting does not change the answers that
  the model keeps.
\<close>

definition outlook_open_default_calendar :: "ol_items \<Rightarrow> ol_items" where
  "outlook_open_default_calendar calendar_items = calendar_items\<lparr>IncludeRecurrences := True\<rparr>"

text \<open>
  Outlook's side, which the specification repeats for its calendar service (a deleted
  occurrence is a single instance, not a series): a collection with \<^verbatim>\<open>IncludeRecurrences\<close>
  set answers with the occurrences of a recurring appointment and never with the definition
  of the series.
\<close>

definition expands_recurrences :: "ol_items \<Rightarrow> bool" where
  "expands_recurrences items \<longleftrightarrow>
     (IncludeRecurrences items \<longrightarrow>
        (\<forall>allday a b restricted itm.
           Restrict items allday a b = Some restricted \<longrightarrow> itm \<in> set restricted \<longrightarrow>
           RecurrenceState itm \<noteq> olApptMaster))"

text \<open>
  The query both \<^verbatim>\<open>events_in_range\<close> and \<^verbatim>\<open>find_focus_occurrences\<close> start with: the
  restriction with the all-day clause, and the plain one when that raises. The second
  call is outside the \<^verbatim>\<open>try\<close>.
\<close>

definition restrict_slot :: "ol_items \<Rightarrow> datetime \<Rightarrow> datetime \<Rightarrow> py_error + ol_item list" where
  "restrict_slot items start stop =
     (case Restrict items True (ol_time_str start) (ol_time_str stop) of
        Some restricted \<Rightarrow> Inr restricted
      | None \<Rightarrow>
          (case Restrict items False (ol_time_str start) (ol_time_str stop) of
             Some restricted \<Rightarrow> Inr restricted
           | None \<Rightarrow> Inl ComError))"

record event =
  Subject :: string
  Start :: datetime
  End :: datetime
  BusyStatus :: "int option"

text \<open>
  The body of the loop of \<^verbatim>\<open>events_in_range\<close> for one item: the dict that is appended, or
  \<open>None\<close> when the item is skipped, because it is an all-day event or because a read raises.
  The reads are \<^verbatim>\<open>getattr(itm, "AllDayEvent", False)\<close>, \<^verbatim>\<open>itm.Subject\<close>, \<^verbatim>\<open>itm.Start\<close>,
  \<^verbatim>\<open>itm.End\<close> and, under \<^verbatim>\<open>hasattr\<close>, \<^verbatim>\<open>itm.BusyStatus\<close>.
\<close>

definition read_event :: "ol_item \<Rightarrow> event option" where
  "read_event itm =
     (case getattr_default (AllDayEvent itm) False of
        Inl e \<Rightarrow> None
      | Inr allday \<Rightarrow>
          if allday then None
          else
            (case getattr (ol_Subject itm) of
               Inl e \<Rightarrow> None
             | Inr subj \<Rightarrow>
                 (case getattr (ol_Start itm) of
                    Inl e \<Rightarrow> None
                  | Inr st \<Rightarrow>
                      (case getattr (ol_End itm) of
                         Inl e \<Rightarrow> None
                       | Inr en \<Rightarrow>
                           (case ol_BusyStatus itm of
                              Raises \<Rightarrow> None
                            | NoAttribute \<Rightarrow>
                                Some \<lparr>Subject = strip (get_or subj []), Start = st, End = en,
                                      BusyStatus = None\<rparr>
                            | Got b \<Rightarrow>
                                Some \<lparr>Subject = strip (get_or subj []), Start = st, End = en,
                                      BusyStatus = Some b\<rparr>)))))"

text \<open>\<^verbatim>\<open>events_in_range\<close>\<close>

definition events_in_range :: "ol_items \<Rightarrow> datetime \<Rightarrow> datetime \<Rightarrow> py_error + event list" where
  "events_in_range items start stop =
     (case restrict_slot items start stop of
        Inl e \<Rightarrow> Inl e
      | Inr restricted \<Rightarrow> Inr (List.map_filter read_event restricted))"

text \<open>\<^verbatim>\<open>_is_focus_title\<close>\<close>

definition is_focus_title :: "string \<Rightarrow> string \<Rightarrow> string \<Rightarrow> bool" where
  "is_focus_title subject ft mode =
     (let s = strip subject
      in if mode = ''equals_ci'' then lower s = lower ft
         else if mode = ''contains_ci'' then str_in (lower ft) (lower s)
         else s = ft)"

definition rules_focus_title :: "config \<Rightarrow> string" where
  "rules_focus_title cfg = get_or (focus_title (cfg_prompt_rules cfg)) ''Focus Sprint''"

definition rules_focus_match :: "config \<Rightarrow> string" where
  "rules_focus_match cfg = get_or (focus_match (cfg_prompt_rules cfg)) ''equals_ci''"

text \<open>
  The body of the loop of \<^verbatim>\<open>find_focus_occurrences\<close> for one item: whether the item is
  appended. The reads are \<^verbatim>\<open>getattr(itm, "AllDayEvent", False)\<close> and
  \<^verbatim>\<open>getattr(itm, "Subject", "")\<close>, and no other; an item whose read raises is skipped.
\<close>

definition is_focus_occurrence :: "config \<Rightarrow> ol_item \<Rightarrow> bool" where
  "is_focus_occurrence cfg itm =
     (case getattr_default (AllDayEvent itm) False of
        Inl e \<Rightarrow> False
      | Inr allday \<Rightarrow>
          if allday then False
          else
            (case getattr_default (ol_Subject itm) (Some []) of
               Inl e \<Rightarrow> False
             | Inr subj \<Rightarrow>
                 is_focus_title (get_or subj []) (rules_focus_title cfg) (rules_focus_match cfg)))"

text \<open>\<^verbatim>\<open>find_focus_occurrences\<close>: the raw items of the slot whose subject matches.\<close>

definition find_focus_occurrences ::
  "ol_items \<Rightarrow> datetime \<Rightarrow> datetime \<Rightarrow> config \<Rightarrow> py_error + ol_item list" where
  "find_focus_occurrences items slot_start slot_end cfg =
     (case restrict_slot items slot_start slot_end of
        Inl e \<Rightarrow> Inl e
      | Inr restricted \<Rightarrow> Inr (filter (is_focus_occurrence cfg) restricted))"

section \<open>Prompt rules\<close>

text \<open>\<^verbatim>\<open>should_prompt\<close>\<close>

definition should_prompt :: "config \<Rightarrow> ol_items \<Rightarrow> datetime \<Rightarrow> datetime \<Rightarrow> py_error + bool" where
  "should_prompt cfg items slot_start slot_end =
     (case events_in_range items slot_start slot_end of
        Inl e \<Rightarrow> Inl e
      | Inr evs \<Rightarrow>
          Inr (if evs = [] then True
               else if length evs = 1 \<and>
                       is_focus_title (Subject (evs ! 0)) (rules_focus_title cfg)
                         (rules_focus_match cfg)
               then True
               else False))"

section \<open>Appointment creation\<close>

text \<open>
  The host: its clock, as microseconds of UTC, and its time zone, which gives the UTC
  offset in seconds that is in force at a UTC instant.
\<close>

record host =
  utc_now :: int
  zone :: "int \<Rightarrow> int"

text \<open>
  \<^verbatim>\<open>_local_tz\<close> is \<^verbatim>\<open>datetime.now().astimezone().tzinfo\<close>: a fixed offset, the one in force
  when the call is made.
\<close>

definition local_tz :: "host \<Rightarrow> int" where
  "local_tz h = zone h (utc_now h)"

text \<open>
  \<^verbatim>\<open>_to_utc_from_local_wall\<close>: the fixed offset is attached to the naive datetime, and
  \<^verbatim>\<open>astimezone(timezone.utc)\<close> subtracts it. The result is the UTC datetime. Within a day
  of the two ends of the range of datetimes the subtraction can raise; that is left out
  here.
\<close>

definition to_utc_from_local_wall :: "host \<Rightarrow> datetime \<Rightarrow> datetime" where
  "to_utc_from_local_wall h dt_local_naive =
     of_us (to_us dt_local_naive - local_tz h * 1000000)"

text \<open>\<^verbatim>\<open>_local_and_utc\<close>: the aware local datetime (the naive one and its offset) and UTC.\<close>

definition local_and_utc :: "host \<Rightarrow> datetime \<Rightarrow> (datetime \<times> int) \<times> datetime" where
  "local_and_utc h dt_naive_local =
     ((dt_naive_local, local_tz h), of_us (to_us dt_naive_local - local_tz h * 1000000))"

record appointment =
  StartUTC :: datetime
  EndUTC :: datetime
  appt_Subject :: string
  appt_BusyStatus :: int
  appt_Categories :: "string option"

datatype prompt_result = Save string string string | Skip | Snooze

text \<open>
  What the world answers during one \<^verbatim>\<open>prompt_once\<close>: the result of the modal, whether
  \<^verbatim>\<open>Delete()\<close> raises on an item, whether creating the appointment raises (in
  \<^verbatim>\<open>Items.Add\<close>, in setting a property or in \<^verbatim>\<open>Save()\<close>), whether setting its categories
  raises, which the code passes over, and the host at the moments the start and the end of
  the slot are converted.
\<close>

record world =
  modal_result :: prompt_result
  delete_raises :: "nat \<Rightarrow> bool"
  create_raises :: bool
  categories_raises :: bool
  host_start :: host
  host_end :: host

text \<open>\<^verbatim>\<open>create_appointment\<close>: the appointment that is saved, or the exception.\<close>

definition create_appointment ::
  "world \<Rightarrow> datetime \<Rightarrow> datetime \<Rightarrow> string \<Rightarrow> string option \<Rightarrow> py_error + appointment" where
  "create_appointment w start stop subject outlook_cat =
     (if create_raises w then Inl ComError
      else Inr \<lparr>StartUTC = to_utc_from_local_wall (host_start w) start,
                EndUTC = to_utc_from_local_wall (host_end w) stop,
                appt_Subject = subject,
                appt_BusyStatus = 2,
                appt_Categories =
                  (if outlook_cat = None \<or> outlook_cat = Some [] \<or> categories_raises w
                   then None else outlook_cat)\<rparr>)"

section \<open>One prompt\<close>

record state =
  last_category :: "string option"
  last_timecode :: "string option"
  snooze_until :: "string option"

text \<open>
  What \<^verbatim>\<open>prompt_once\<close> does to the outside, in order. Debug printing is left out.
\<close>

datatype effect =
    ModalShown
  | OccurrenceDeleted nat
  | DeleteFailureLogged nat
  | PreviewLogged string "string option" "datetime \<times> int" "datetime \<times> int" datetime datetime
  | AppointmentSaved appointment
  | CreateFailureLogged
  | StateWritten state
  | Slept int

text \<open>The loop over \<^verbatim>\<open>focus_occurs\<close>: one \<^verbatim>\<open>Delete()\<close> per item, a failure is logged.\<close>

definition delete_occurrences :: "world \<Rightarrow> ol_item list \<Rightarrow> effect list" where
  "delete_occurrences w focus_occurs =
     map (\<lambda>occ. if delete_raises w (item_id occ) then DeleteFailureLogged (item_id occ)
                 else OccurrenceDeleted (item_id occ)) focus_occurs"

text \<open>\<^verbatim>\<open>_preview_log\<close>\<close>

definition preview_log :: "world \<Rightarrow> datetime \<Rightarrow> datetime \<Rightarrow> string \<Rightarrow> string option \<Rightarrow> effect" where
  "preview_log w slot_start slot_end subject outlook_cat =
     (let (start_local, start_utc) = local_and_utc (host_start w) slot_start;
          (end_local, end_utc) = local_and_utc (host_end w) slot_end
      in PreviewLogged subject outlook_cat start_local end_local start_utc end_utc)"

text \<open>
  The body of \<^verbatim>\<open>if text and tcode:\<close> in \<^verbatim>\<open>prompt_once\<close>: the effects of the commit, or the
  exception of the query.
\<close>

definition commit_entry ::
  "config \<Rightarrow> world \<Rightarrow> ol_items \<Rightarrow> datetime \<Rightarrow> datetime \<Rightarrow> string \<Rightarrow> string \<Rightarrow> bool
     \<Rightarrow> py_error + effect list" where
  "commit_entry cfg w items slot_start slot_end subj cat preview_only =
     (let cats = get_or (cfg_categories cfg) Map.empty;
          outlook_cat = (case cats cat of None \<Rightarrow> None | Some c \<Rightarrow> outlook_category c)
      in case find_focus_occurrences items slot_start slot_end cfg of
           Inl e \<Rightarrow> Inl e
         | Inr focus_occurs \<Rightarrow>
             Inr (delete_occurrences w focus_occurs @
                  (if preview_only then [preview_log w slot_start slot_end subj outlook_cat]
                   else (case create_appointment w slot_start slot_end subj outlook_cat of
                           Inl ex \<Rightarrow> [CreateFailureLogged]
                         | Inr appt \<Rightarrow> [AppointmentSaved appt]))))"

text \<open>
  \<^verbatim>\<open>cfg.get("ui", {}).get("snooze_minutes", 10)\<close> and
  \<^verbatim>\<open>cfg.get("ui", {}).get("remember_last", True)\<close>
\<close>

definition ui_snooze_minutes :: "config \<Rightarrow> int" where
  "ui_snooze_minutes cfg =
     get_or (snooze_minutes (get_or (cfg_ui cfg) \<lparr>remember_last = None, snooze_minutes = None\<rparr>)) 10"

definition ui_remember_last :: "config \<Rightarrow> bool" where
  "ui_remember_last cfg =
     get_or (remember_last (get_or (cfg_ui cfg) \<lparr>remember_last = None, snooze_minutes = None\<rparr>)) True"

text \<open>
  \<^verbatim>\<open>prompt_once\<close>: the effects in order and the state afterwards, or the exception that
  leaves the function.
\<close>

definition prompt_once ::
  "config \<Rightarrow> world \<Rightarrow> ol_items \<Rightarrow> datetime \<Rightarrow> datetime \<Rightarrow> bool \<Rightarrow> state \<Rightarrow> bool
     \<Rightarrow> py_error + (effect list \<times> state)" where
  "prompt_once cfg w items slot_start slot_end bypass st preview_only =
     (case (if bypass then Inr True else within_work_window cfg slot_start) of
        Inl e \<Rightarrow> Inl e
      | Inr inside \<Rightarrow>
          if \<not> inside then Inr ([], st)
          else
            (case (if bypass then Inr True else should_prompt cfg items slot_start slot_end) of
               Inl e \<Rightarrow> Inl e
             | Inr admitted \<Rightarrow>
                 if \<not> admitted then Inr ([], st)
                 else
                   (let snooze_m = ui_snooze_minutes cfg
                    in case modal_result w of
                         Save rtext rcategory rtimecode \<Rightarrow>
                           (let txt = strip rtext; tcode = strip rtimecode; cat = strip rcategory
                            in case (if txt \<noteq> [] \<and> tcode \<noteq> []
                                     then commit_entry cfg w items slot_start slot_end txt cat
                                            preview_only
                                     else Inr []) of
                                 Inl e \<Rightarrow> Inl e
                               | Inr effs \<Rightarrow>
                                   if ui_remember_last cfg
                                   then
                                     (let st' = st\<lparr>last_category := Some cat,
                                                    last_timecode := Some tcode\<rparr>
                                      in Inr (ModalShown # effs @ [StateWritten st'], st'))
                                   else Inr (ModalShown # effs, st))
                       | Skip \<Rightarrow> Inr ([ModalShown], st)
                       | Snooze \<Rightarrow> Inr ([ModalShown, Slept (snooze_m * 60)], st))))"

section \<open>The scheduler loop\<close>

text \<open>
  The slot key is \<^verbatim>\<open>s.strftime("%Y-%m-%d %H:%M")\<close>: the date, the hour and the minute of the
  slot's start.
\<close>

definition slot_key :: "datetime \<Rightarrow> time_str" where
  "slot_key s = (ordinal s, hour s, minute s)"

datatype trigger = Boundary | Resume

text \<open>A call of \<^verbatim>\<open>prompt_once\<close> from the loop: which trigger made it, and for which slot.\<close>

type_synonym attempt = "trigger \<times> time_str"

record loop_state =
  last_slot_key_prompted :: "time_str option"
  was_idle :: bool

definition loop_init :: loop_state where
  "loop_init = \<lparr>last_slot_key_prompted = None, was_idle = False\<rparr>"

definition IDLE_THRESHOLD_SEC :: int where
  "IDLE_THRESHOLD_SEC = 60"

text \<open>
  What one pass of the loop reads: \<open>now\<close>, the clock at the top of the pass; \<open>slot_now\<close>,
  the clock inside \<^verbatim>\<open>current_slot\<close>; \<open>idle_ms\<close>, the milliseconds since the last input, of
  which \<^verbatim>\<open>get_idle_seconds\<close> returns the thousandth part (0 when the system call fails).
\<close>

record tick_obs =
  now :: datetime
  slot_now :: datetime
  idle_ms :: int

text \<open>Lines 455 to 459: the boundary trigger.\<close>

definition boundary_trigger ::
  "loop_state \<Rightarrow> time_str \<Rightarrow> datetime \<Rightarrow> loop_state \<times> attempt list" where
  "boundary_trigger st key n =
     (if Some key \<noteq> last_slot_key_prompted st \<and> second n < 5
      then (st\<lparr>last_slot_key_prompted := Some key\<rparr>, [(Boundary, key)])
      else (st, []))"

text \<open>Lines 462 to 472: idle detection and the resume trigger.\<close>

definition resume_trigger ::
  "loop_state \<Rightarrow> time_str \<Rightarrow> int \<Rightarrow> loop_state \<times> attempt list" where
  "resume_trigger st key idle =
     (if idle > IDLE_THRESHOLD_SEC * 1000 then (st\<lparr>was_idle := True\<rparr>, [])
      else if was_idle st then
        (let st1 = st\<lparr>was_idle := False\<rparr>
         in if Some key \<noteq> last_slot_key_prompted st1
            then (st1\<lparr>last_slot_key_prompted := Some key\<rparr>, [(Resume, key)])
            else (st1, []))
      else (st, []))"

text \<open>
  One pass of \<^verbatim>\<open>while True\<close>, up to the sleep; \<open>mins\<close> is \<^verbatim>\<open>slot_minutes\<close>, read once before
  the loop. The calls of \<^verbatim>\<open>prompt_once\<close> are returned in order; the loop does not look at
  what they do. A call that raises ends the program there, so the calls of such a run are
  the first ones of the list given here.
\<close>

definition tick ::
  "config \<Rightarrow> int \<Rightarrow> loop_state \<Rightarrow> tick_obs \<Rightarrow> py_error + (loop_state \<times> attempt list)" where
  "tick cfg mins st ob =
     (case within_work_window cfg (now ob) of
        Inl e \<Rightarrow> Inl e
      | Inr inside \<Rightarrow>
          if \<not> inside then Inr (st, [])
          else
            (case current_slot (slot_now ob) mins of
               Inl e \<Rightarrow> Inl e
             | Inr (s, e) \<Rightarrow>
                 (let key = slot_key s;
                      (st1, a1) = boundary_trigger st key (now ob);
                      (st2, a2) = resume_trigger st1 key (idle_ms ob)
                  in Inr (st2, a1 @ a2))))"

text \<open>
  The loop over the passes that a run makes: the state at the end, the calls of
  \<^verbatim>\<open>prompt_once\<close> in order, and the exception that ended the loop, if one did.
\<close>

fun run ::
  "config \<Rightarrow> int \<Rightarrow> loop_state \<Rightarrow> tick_obs list
     \<Rightarrow> loop_state \<times> attempt list \<times> py_error option" where
  "run cfg mins st [] = (st, [], None)"
| "run cfg mins st (ob # obs) =
     (case tick cfg mins st ob of
        Inl e \<Rightarrow> (st, [], Some e)
      | Inr (st1, a1) \<Rightarrow>
          (case run cfg mins st1 obs of (st2, a2, err) \<Rightarrow> (st2, a1 @ a2, err)))"

section \<open>Loading the configuration\<close>

text \<open>
  What \<^verbatim>\<open>json.loads\<close> returns, with a dict as the list of its items in order. Numbers
  are integers.
\<close>

datatype json =
    JNull
  | JBool bool
  | JInt int
  | JStr string
  | JArr "json list"
  | JObj "(string \<times> json) list"

definition DEFAULTS :: "(string \<times> json) list" where
  "DEFAULTS =
     [(''work_window'',
         JObj [(''start'', JStr ''09:00''), (''end'', JStr ''17:00''), (''slot_minutes'', JInt 30)]),
      (''prompt_rules'',
         JObj [(''focus_title'', JStr ''Focus Sprint''), (''focus_match'', JStr ''equals_ci''),
               (''skip_if_any_event'', JBool True)]),
      (''ui'', JObj [(''remember_last'', JBool True), (''snooze_minutes'', JInt 10)]),
      (''outlook'', JObj [(''tz_id'', JNull)]),
      (''categories'', JObj [])]"

text \<open>Python's truth value of a JSON value.\<close>

fun truthy :: "json \<Rightarrow> bool" where
  "truthy JNull = False"
| "truthy (JBool b) = b"
| "truthy (JInt n) = (n \<noteq> 0)"
| "truthy (JStr s) = (s \<noteq> [])"
| "truthy (JArr xs) = (xs \<noteq> [])"
| "truthy (JObj kvs) = (kvs \<noteq> [])"

text \<open>\<^verbatim>\<open>d[k]\<close>: \<^verbatim>\<open>KeyError\<close> for a missing key, \<^verbatim>\<open>TypeError\<close> when \<open>d\<close> is no dict.\<close>

definition get_item :: "json \<Rightarrow> string \<Rightarrow> py_error + json" where
  "get_item d k =
     (case d of
        JObj kvs \<Rightarrow> (case map_of kvs k of None \<Rightarrow> Inl KeyError | Some v \<Rightarrow> Inr v)
      | _ \<Rightarrow> Inl TypeError)"

text \<open>\<^verbatim>\<open>d.setdefault(k, v)\<close>, as the dict afterwards.\<close>

definition setdefault :: "string \<Rightarrow> json \<Rightarrow> (string \<times> json) list \<Rightarrow> (string \<times> json) list" where
  "setdefault k v d = (case map_of d k of None \<Rightarrow> d @ [(k, v)] | Some _ \<Rightarrow> d)"

text \<open>
  A file as \<^verbatim>\<open>_try_load_json\<close> meets it: not there, there but \<^verbatim>\<open>json.loads\<close> raises, or
  parsed. The function returns \<^verbatim>\<open>None\<close>, here \<open>JNull\<close>, in the first two cases.
\<close>

datatype config_file = Missing | Unparseable | Parsed json

definition try_load_json :: "config_file \<Rightarrow> json" where
  "try_load_json p = (case p of Parsed j \<Rightarrow> j | _ \<Rightarrow> JNull)"

text \<open>
  \<^verbatim>\<open>_merge_defaults\<close>: \<^verbatim>\<open>.items()\<close> of a value that is no dict raises
  \<^verbatim>\<open>AttributeError\<close>, and so does \<^verbatim>\<open>.setdefault\<close> on an \<^verbatim>\<open>outlook\<close> value that is no dict.
\<close>

definition merge_defaults :: "json \<Rightarrow> py_error + (string \<times> json) list" where
  "merge_defaults over =
     (case (if truthy over then over else JObj []) of
        JObj kvs \<Rightarrow>
          (let cfg = fold (\<lambda>(k, v). AList.update k v) kvs DEFAULTS;
               cfg = setdefault ''categories'' (JObj []) cfg;
               cfg = setdefault ''outlook'' (JObj []) cfg
           in case map_of cfg ''outlook'' of
                Some (JObj ol) \<Rightarrow>
                  Inr (AList.update ''outlook'' (JObj (setdefault ''tz_id'' JNull ol)) cfg)
              | _ \<Rightarrow> Inl AttributeError)
      | _ \<Rightarrow> Inl AttributeError)"

text \<open>
  \<^verbatim>\<open>load_config\<close>; \<open>fs\<close> is the file system, \<open>here\<close> and \<open>cwd\<close> are the paths of
  \<^verbatim>\<open>config.json\<close> beside the script and in the working directory.
\<close>

definition load_config ::
  "string option \<Rightarrow> (string \<Rightarrow> config_file) \<Rightarrow> string \<Rightarrow> string \<Rightarrow> py_error + (string \<times> json) list" where
  "load_config cli_path fs here cwd =
     (let c1 = (if cli_path \<noteq> None \<and> cli_path \<noteq> Some [] then try_load_json (fs (the cli_path))
                else JNull)
      in if truthy c1 then merge_defaults c1
         else
           (let c2 = try_load_json (fs here)
            in if truthy c2 then merge_defaults c2
               else
                 (let c3 = try_load_json (fs cwd)
                  in if truthy c3 then merge_defaults c3
                     else merge_defaults (JObj []))))"

section \<open>Reading UTC back as local time\<close>

text \<open>
  The two ways to read a UTC datetime back as local wall-clock time, to compare the
  committer's conversion with. \<open>local_from_utc_fixed\<close> undoes a fixed offset.
  \<open>local_at_that_instant\<close> follows the specification's words, "the conversion is
  offset-at-that-instant": it adds the offset that the zone has at the UTC instant itself.
\<close>

definition local_from_utc_fixed :: "int \<Rightarrow> datetime \<Rightarrow> datetime" where
  "local_from_utc_fixed off u = of_us (to_us u + off * 1000000)"

definition local_at_that_instant :: "(int \<Rightarrow> int) \<Rightarrow> datetime \<Rightarrow> datetime" where
  "local_at_that_instant z u = of_us (to_us u + z (to_us u) * 1000000)"

section \<open>Slot keys in the order of time\<close>

text \<open>
  A slot key as the number of minutes since the start of day 0, and the keys that a slot's
  start can have. \<open>slot_num n k\<close> is that number for the slot of width \<open>k\<close> that the clock
  reading \<open>n\<close> falls in.
\<close>

definition key_num :: "time_str \<Rightarrow> int" where
  "key_num key = (case key of (d, h, m) \<Rightarrow> (d * 24 + h) * 60 + m)"

definition valid_key :: "time_str \<Rightarrow> bool" where
  "valid_key key = (case key of (d, h, m) \<Rightarrow> 0 \<le> h \<and> h < 24 \<and> 0 \<le> m \<and> m < 60)"

definition slot_num :: "datetime \<Rightarrow> int \<Rightarrow> int" where
  "slot_num n k = (ordinal n * 24 + hour n) * 60 + minute n div k * k"

section \<open>Concrete inputs\<close>

text \<open>
  The inputs at which the theorems below are instantiated. Day 739926 is 6 November 2026,
  day 739921 is 1 November 2026.
\<close>

definition now_0907 :: datetime where
  "now_0907 = \<lparr>ordinal = 739926, hour = 9, minute = 7, second = 42, microsecond = 250000\<rparr>"

definition slot_0900 :: datetime where
  "slot_0900 = \<lparr>ordinal = 739926, hour = 9, minute = 0, second = 0, microsecond = 0\<rparr>"

definition slot_0930 :: datetime where
  "slot_0930 = \<lparr>ordinal = 739926, hour = 9, minute = 30, second = 0, microsecond = 0\<rparr>"

definition default_config :: config where
  "default_config =
     \<lparr>cfg_work_window = \<lparr>ww_start = ''09:00'', ww_end = ''17:00'', slot_minutes = 30\<rparr>,
      cfg_prompt_rules = \<lparr>focus_title = Some ''Focus Sprint'', focus_match = Some ''equals_ci''\<rparr>,
      cfg_ui = Some \<lparr>remember_last = Some True, snooze_minutes = Some 10\<rparr>,
      cfg_categories = Some Map.empty\<rparr>"

definition slot_0907 :: datetime where
  "slot_0907 = \<lparr>ordinal = 739926, hour = 9, minute = 7, second = 0, microsecond = 0\<rparr>"

definition slot_0937 :: datetime where
  "slot_0937 = \<lparr>ordinal = 739926, hour = 9, minute = 37, second = 0, microsecond = 0\<rparr>"

definition now_0937 :: datetime where
  "now_0937 = \<lparr>ordinal = 739926, hour = 9, minute = 37, second = 42, microsecond = 250000\<rparr>"

text \<open>
  A calendar, opened as the program opens it, that answers every query with the same
  items.
\<close>

definition calendar_with :: "ol_item list \<Rightarrow> ol_items" where
  "calendar_with xs =
     outlook_open_default_calendar
       \<lparr>IncludeRecurrences = False, Restrict = (\<lambda>allday a b. Some xs)\<rparr>"

text \<open>
  An occurrence of a daily focus block, a stand-up meeting, and a focus block of which
  Outlook cannot give the busy status; the events that the first two are read as.
\<close>

definition focus_item :: "nat \<Rightarrow> ol_item" where
  "focus_item i =
     \<lparr>item_id = i, RecurrenceState = olApptOccurrence, AllDayEvent = Got False,
      ol_Subject = Got (Some '' focus sprint''), ol_Start = Got slot_0900,
      ol_End = Got slot_0930, ol_BusyStatus = Got 2\<rparr>"

definition standup_item :: ol_item where
  "standup_item =
     \<lparr>item_id = 7, RecurrenceState = olApptNotRecurring, AllDayEvent = Got False,
      ol_Subject = Got (Some ''Standup''), ol_Start = Got slot_0900, ol_End = Got slot_0930,
      ol_BusyStatus = Got 2\<rparr>"

definition focus_item_unread :: "nat \<Rightarrow> ol_item" where
  "focus_item_unread i =
     \<lparr>item_id = i, RecurrenceState = olApptNotRecurring, AllDayEvent = Got False,
      ol_Subject = Got (Some ''Focus Sprint''), ol_Start = Got slot_0900,
      ol_End = Got slot_0930, ol_BusyStatus = Raises\<rparr>"

definition focus_event :: event where
  "focus_event =
     \<lparr>Subject = ''focus sprint'', Start = slot_0900, End = slot_0930, BusyStatus = Some 2\<rparr>"

definition standup_event :: event where
  "standup_event =
     \<lparr>Subject = ''Standup'', Start = slot_0900, End = slot_0930, BusyStatus = Some 2\<rparr>"

text \<open>A host on Central Standard Time (six hours behind UTC) at 09:07:42 local time.\<close>

definition host_cst :: host where
  "host_cst =
     \<lparr>utc_now = to_us \<lparr>ordinal = 739926, hour = 15, minute = 7, second = 42, microsecond = 0\<rparr>,
      zone = (\<lambda>u. - 21600)\<rparr>"

definition utc_1500 :: datetime where
  "utc_1500 = \<lparr>ordinal = 739926, hour = 15, minute = 0, second = 0, microsecond = 0\<rparr>"

definition utc_1530 :: datetime where
  "utc_1530 = \<lparr>ordinal = 739926, hour = 15, minute = 30, second = 0, microsecond = 0\<rparr>"

text \<open>
  The user saves. In \<open>world_delete_fails\<close> every \<^verbatim>\<open>Delete()\<close> raises; in \<open>world_failing\<close>
  the creation raises as well.
\<close>

definition world_save :: world where
  "world_save =
     \<lparr>modal_result = Save ''Write report'' ''Dev'' ''PROJ-1'', delete_raises = (\<lambda>i. False),
      create_raises = False, categories_raises = False, host_start = host_cst,
      host_end = host_cst\<rparr>"

definition world_delete_fails :: world where
  "world_delete_fails =
     \<lparr>modal_result = Save ''Write report'' ''Dev'' ''PROJ-1'', delete_raises = (\<lambda>i. True),
      create_raises = False, categories_raises = False, host_start = host_cst,
      host_end = host_cst\<rparr>"

definition world_failing :: world where
  "world_failing =
     \<lparr>modal_result = Save ''Write report'' ''Dev'' ''PROJ-1'', delete_raises = (\<lambda>i. True),
      create_raises = True, categories_raises = False, host_start = host_cst,
      host_end = host_cst\<rparr>"

definition state0 :: state where
  "state0 = \<lparr>last_category = None, last_timecode = None, snooze_until = None\<rparr>"

definition state1 :: state where
  "state1 = \<lparr>last_category = Some ''Dev'', last_timecode = Some ''PROJ-1'', snooze_until = None\<rparr>"

definition appt_report :: appointment where
  "appt_report =
     \<lparr>StartUTC = utc_1500, EndUTC = utc_1530, appt_Subject = ''Write report'',
      appt_BusyStatus = 2, appt_Categories = None\<rparr>"

text \<open>
  US Central time on 1 November 2026: daylight time (five hours behind UTC) ends at
  07:00 UTC, when the local clocks go from 02:00 back to 01:00. The host's clock stands at
  06:30:02 UTC, 01:30:02 local daylight time, in the slot from 01:30 to 02:00.
\<close>

definition zone_central :: "int \<Rightarrow> int" where
  "zone_central u =
     (if u < to_us \<lparr>ordinal = 739921, hour = 7, minute = 0, second = 0, microsecond = 0\<rparr>
      then - 18000 else - 21600)"

definition host_fall_back :: host where
  "host_fall_back =
     \<lparr>utc_now = to_us \<lparr>ordinal = 739921, hour = 6, minute = 30, second = 2, microsecond = 0\<rparr>,
      zone = zone_central\<rparr>"

definition slot_0130 :: datetime where
  "slot_0130 = \<lparr>ordinal = 739921, hour = 1, minute = 30, second = 0, microsecond = 0\<rparr>"

definition slot_0200 :: datetime where
  "slot_0200 = \<lparr>ordinal = 739921, hour = 2, minute = 0, second = 0, microsecond = 0\<rparr>"

definition utc_0700 :: datetime where
  "utc_0700 = \<lparr>ordinal = 739921, hour = 7, minute = 0, second = 0, microsecond = 0\<rparr>"

definition local_0100 :: datetime where
  "local_0100 = \<lparr>ordinal = 739921, hour = 1, minute = 0, second = 0, microsecond = 0\<rparr>"

text \<open>
  Overrides: one that names a single key of the \<^verbatim>\<open>ui\<close> section, one that names a single key
  of the \<^verbatim>\<open>work_window\<close> section, and the configurations they merge to. In the file
  system \<open>fs_none\<close> no file exists.
\<close>

definition over_ui :: "(string \<times> json) list" where
  "over_ui = [(''ui'', JObj [(''snooze_minutes'', JInt 5)])]"

definition merged_ui :: "(string \<times> json) list" where
  "merged_ui =
     [(''work_window'',
         JObj [(''start'', JStr ''09:00''), (''end'', JStr ''17:00''), (''slot_minutes'', JInt 30)]),
      (''prompt_rules'',
         JObj [(''focus_title'', JStr ''Focus Sprint''), (''focus_match'', JStr ''equals_ci''),
               (''skip_if_any_event'', JBool True)]),
      (''ui'', JObj [(''snooze_minutes'', JInt 5)]),
      (''outlook'', JObj [(''tz_id'', JNull)]),
      (''categories'', JObj [])]"

definition over_start :: "(string \<times> json) list" where
  "over_start = [(''work_window'', JObj [(''start'', JStr ''08:00'')])]"

definition merged_start :: "(string \<times> json) list" where
  "merged_start =
     [(''work_window'', JObj [(''start'', JStr ''08:00'')]),
      (''prompt_rules'',
         JObj [(''focus_title'', JStr ''Focus Sprint''), (''focus_match'', JStr ''equals_ci''),
               (''skip_if_any_event'', JBool True)]),
      (''ui'', JObj [(''remember_last'', JBool True), (''snooze_minutes'', JInt 10)]),
      (''outlook'', JObj [(''tz_id'', JNull)]),
      (''categories'', JObj [])]"

definition fs_none :: "string \<Rightarrow> config_file" where
  "fs_none p = Missing"

definition fs_start :: "string \<Rightarrow> config_file" where
  "fs_start p = (if p = ''config.json'' then Parsed (JObj over_start) else Missing)"

definition fs_list :: "string \<Rightarrow> config_file" where
  "fs_list p = (if p = ''config.json'' then Parsed (JArr [JInt 1]) else Missing)"

text \<open>
  Passes of the loop on 6 November 2026: \<open>pass_at h m s idle\<close> is the pass at \<open>h:m:s\<close> with
  \<open>idle\<close> milliseconds since the last input. In \<open>passes_morning\<close> the user is away for 90
  seconds inside the slot that was prompted at 09:00, and is back inside it.
\<close>

definition pass_at :: "int \<Rightarrow> int \<Rightarrow> int \<Rightarrow> int \<Rightarrow> tick_obs" where
  "pass_at h m s idle =
     \<lparr>now = \<lparr>ordinal = 739926, hour = h, minute = m, second = s, microsecond = 0\<rparr>,
      slot_now = \<lparr>ordinal = 739926, hour = h, minute = m, second = s, microsecond = 0\<rparr>,
      idle_ms = idle\<rparr>"

definition key_0900 :: time_str where
  "key_0900 = (739926, 9, 0)"

definition key_0930 :: time_str where
  "key_0930 = (739926, 9, 30)"

definition passes_morning :: "tick_obs list" where
  "passes_morning =
     [pass_at 9 0 1 0, pass_at 9 0 2 1000, pass_at 9 10 30 90000, pass_at 9 10 31 0,
      pass_at 9 30 0 500, pass_at 9 30 1 1500]"

definition prompted_0900_idle :: loop_state where
  "prompted_0900_idle = \<lparr>last_slot_key_prompted = Some key_0900, was_idle = True\<rparr>"

text \<open>
  In \<open>passes_snoozed\<close> the prompt of 09:00 is answered late with Snooze and the user leaves:
  the pass of 09:00:00 ends at 09:30:30 with ten minutes of idle time, the user is back at
  09:30:41, and the following passes are in the first seconds of 09:31.
\<close>

definition passes_snoozed :: "tick_obs list" where
  "passes_snoozed =
     [pass_at 9 0 0 600000, pass_at 9 30 31 601000, pass_at 9 30 41 500, pass_at 9 31 0 1000,
      pass_at 9 31 1 2000]"

section \<open>Datetime arithmetic\<close>

lemma to_us_of_us: "to_us (of_us x) = x"
  unfolding to_us_def of_us_def by simp

lemma divmod_step:
  fixes q r m :: int
  assumes "0 \<le> r" "r < m"
  shows "(q * m + r) div m = q" and "(q * m + r) mod m = r"
  using assms by (simp_all add: div_pos_pos_trivial mod_pos_pos_trivial)

lemma of_us_to_us:
  assumes "valid_datetime d"
  shows "of_us (to_us d) = d"
proof -
  define a where "a = ordinal d * 24 + hour d"
  define b where "b = a * 60 + minute d"
  define c where "c = b * 60 + second d"
  have x: "to_us d = c * 1000000 + microsecond d"
    by (simp add: to_us_def a_def b_def c_def)
  from assms have r: "0 \<le> hour d" "hour d < 24" "0 \<le> minute d" "minute d < 60"
    "0 \<le> second d" "second d < 60" "0 \<le> microsecond d" "microsecond d < 1000000"
    by (simp_all add: valid_datetime_def)
  have 1: "to_us d div 1000000 = c" "to_us d mod 1000000 = microsecond d"
    unfolding x using divmod_step [OF r(7,8)] by simp_all
  have 2: "c div 60 = b" "c mod 60 = second d"
    unfolding c_def using divmod_step [OF r(5,6)] by simp_all
  have 3: "b div 60 = a" "b mod 60 = minute d"
    unfolding b_def using divmod_step [OF r(3,4)] by simp_all
  have 4: "a div 24 = ordinal d" "a mod 24 = hour d"
    unfolding a_def using divmod_step [OF r(1,2)] by simp_all
  show ?thesis
    by (simp add: of_us_def 1 2 3 4)
qed

lemma valid_of_us: "valid_datetime (of_us x)"
  by (simp add: valid_datetime_def of_us_def)

lemma floor_multiple_bounds:
  fixes m k :: int
  assumes "0 < k" and "0 \<le> m"
  shows "0 \<le> m div k * k" and "m div k * k \<le> m" and "m < m div k * k + k"
proof -
  have eq: "m = m div k * k + m mod k" by simp
  have r: "0 \<le> m mod k" "m mod k < k" using assms(1) by simp_all
  show "m div k * k \<le> m" using eq r(1) by linarith
  show "m < m div k * k + k" using eq r(2) by linarith
  have "0 \<le> m div k" using assms by (simp add: pos_imp_zdiv_nonneg_iff)
  then show "0 \<le> m div k * k" using assms(1) by simp
qed

lemma to_us_replace_minute:
  "to_us (n\<lparr>minute := q, second := 0, microsecond := 0\<rparr>)
     = to_us n - (minute n - q) * 60000000 - second n * 1000000 - microsecond n"
  by (simp add: to_us_def algebra_simps)

lemma day_upper:
  fixes x d h m s u :: int
  assumes "x = d * 86400000000 + h * 3600000000 + m * 60000000 + s * 1000000 + u"
    and "h < 24" and "m < 60" and "s < 60" and "u < 1000000"
  shows "x < (d + 1) * 86400000000"
proof -
  have b: "h \<le> 23" "m \<le> 59" "s \<le> 59" "u \<le> 999999" using assms(2-5) by simp_all
  then have "h * 3600000000 \<le> 23 * 3600000000" "m * 60000000 \<le> 59 * 60000000"
    "s * 1000000 \<le> 59 * 1000000"
    by simp_all
  with assms(1) b(4) show ?thesis by (simp add: algebra_simps)
qed

lemma day_lower:
  fixes x d h m s u :: int
  assumes "x = d * 86400000000 + h * 3600000000 + m * 60000000 + s * 1000000 + u"
    and "0 \<le> h" and "0 \<le> m" and "0 \<le> s" and "0 \<le> u"
  shows "d * 86400000000 \<le> x"
  using assms by simp

lemma day_compare:
  fixes a b :: int
  assumes "a * 86400000000 < (b + 1) * 86400000000"
  shows "a \<le> b"
  using assms by simp

lemma of_us_day_bounds:
  shows "ordinal (of_us x) * 86400000000 \<le> x"
    and "x < (ordinal (of_us x) + 1) * 86400000000"
proof -
  define r where "r = of_us x"
  have v: "valid_datetime r" unfolding r_def by (rule valid_of_us)
  then have b: "0 \<le> hour r" "hour r < 24" "0 \<le> minute r" "minute r < 60"
    "0 \<le> second r" "second r < 60" "0 \<le> microsecond r" "microsecond r < 1000000"
    by (simp_all add: valid_datetime_def)
  have "to_us r = x" unfolding r_def by (rule to_us_of_us)
  then have x: "x = ordinal r * 86400000000 + hour r * 3600000000 + minute r * 60000000
                  + second r * 1000000 + microsecond r"
    by (simp add: to_us_def algebra_simps)
  show "ordinal (of_us x) * 86400000000 \<le> x"
    unfolding r_def [symmetric] by (rule day_lower [OF x b(1,3,5,7)])
  show "x < (ordinal (of_us x) + 1) * 86400000000"
    unfolding r_def [symmetric] by (rule day_upper [OF x b(2,4,6,8)])
qed

lemma add_minutes_eq:
  "add_minutes d k =
     (if timedelta_minutes_ok k \<and> in_datetime_range (of_us (to_us d + k * 60000000))
      then Inr (of_us (to_us d + k * 60000000)) else Inl OverflowError)"
  by (simp add: add_minutes_def Let_def)

lemma add_minutes_width:
  assumes "add_minutes d k = Inr r"
  shows "to_us r - to_us d = k * 60000000"
  using assms by (auto simp: add_minutes_eq to_us_of_us split: if_splits)

text \<open>Within a day of the first or before the last day, a width of at most a day fits.\<close>

lemma add_minutes_fits:
  assumes "in_datetime_range n" and "ordinal n < MAXORDINAL" and "0 < k" and "k \<le> 1440"
    and "ordinal d = ordinal n" and "0 \<le> hour d" and "hour d < 24"
    and "0 \<le> minute d" and "minute d < 60" and "second d = 0" and "microsecond d = 0"
  shows "timedelta_minutes_ok k \<and> in_datetime_range (of_us (to_us d + k * 60000000))"
proof -
  have "0 \<le> k div 1440" using assms(3) by (simp add: pos_imp_zdiv_nonneg_iff)
  moreover have "k div 1440 \<le> 1440 div 1440" using assms(4) by (rule zdiv_mono1) simp
  ultimately have t: "timedelta_minutes_ok k" by (simp add: timedelta_minutes_ok_def)
  define x where "x = to_us d + k * 60000000"
  have d: "to_us d = ordinal n * 86400000000 + hour d * 3600000000 + minute d * 60000000"
    using assms(5,10,11) by (simp add: to_us_def algebra_simps)
  have lo: "ordinal n * 86400000000 \<le> x"
    unfolding x_def using d assms(3,6,8) by simp
  have "hour d \<le> 23" "minute d \<le> 59" using assms(7,9) by simp_all
  then have "hour d * 3600000000 \<le> 23 * 3600000000" "minute d * 60000000 \<le> 59 * 60000000"
    by simp_all
  moreover have "k * 60000000 \<le> 1440 * 60000000" using assms(4) by simp
  ultimately have hi: "x < (ordinal n + 1 + 1) * 86400000000"
    unfolding x_def using d by (simp add: algebra_simps)
  from lo of_us_day_bounds(2) [of x]
  have "ordinal n * 86400000000 < (ordinal (of_us x) + 1) * 86400000000" by (rule le_less_trans)
  then have g1: "ordinal n \<le> ordinal (of_us x)" by (rule day_compare)
  from of_us_day_bounds(1) [of x] hi
  have "ordinal (of_us x) * 86400000000 < (ordinal n + 1 + 1) * 86400000000"
    by (rule le_less_trans)
  then have g2: "ordinal (of_us x) \<le> ordinal n + 1" by (rule day_compare)
  from g1 g2 assms(1,2) have "in_datetime_range (of_us x)"
    by (simp add: in_datetime_range_def)
  with t show ?thesis by (simp add: x_def)
qed

section \<open>The slot clock\<close>

lemma current_slot_eq:
  assumes "valid_datetime n" and "0 < k"
  shows "current_slot n k =
     (case add_minutes (n\<lparr>minute := minute n div k * k, second := 0, microsecond := 0\<rparr>) k of
        Inl e \<Rightarrow> Inl e
      | Inr stop \<Rightarrow>
          Inr (n\<lparr>minute := minute n div k * k, second := 0, microsecond := 0\<rparr>, stop))"
proof -
  define q where "q = minute n div k * k"
  from assms(1) have v: "0 \<le> minute n" "minute n < 60"
    by (simp_all add: valid_datetime_def)
  have qb: "0 \<le> q" "q \<le> minute n"
    unfolding q_def using floor_multiple_bounds [OF assms(2) v(1)] by simp_all
  have m: "(if k = 30 then Inr (if minute n < 30 then 0 else 30)
            else (case floordiv (minute n) k of
                    Inl e \<Rightarrow> Inl e
                  | Inr d \<Rightarrow> Inr (d * k))) = (Inr q :: py_error + int)"
  proof (cases "k = 30")
    case True
    have "minute n div 30 * 30 = (if minute n < 30 then 0 else 30)"
      using v by auto
    with True show ?thesis by (simp add: q_def)
  next
    case False
    with assms(2) show ?thesis by (simp add: floordiv_def q_def)
  qed
  have r: "replace_minute n q = Inr (n\<lparr>minute := q, second := 0, microsecond := 0\<rparr>)"
    using qb v by (simp add: replace_minute_def)
  show ?thesis
    unfolding current_slot_def m q_def [symmetric] by (simp add: r)
qed

lemma current_slot_start:
  assumes "valid_datetime n" and "0 < k" and "current_slot n k = Inr (s, e)"
  shows "s = n\<lparr>minute := minute n div k * k, second := 0, microsecond := 0\<rparr>"
  using assms(3) unfolding current_slot_eq [OF assms(1,2)]
  by (simp split: sum.splits)

text \<open>
  C7. For every valid clock reading \<open>n\<close> and every positive slot width \<open>k\<close>, the start of
  the slot is \<open>n\<close> with the minute of the hour floored by integer division to a multiple of
  \<open>k\<close> (0 or 30 when \<open>k\<close> is 30) and with seconds and microseconds zero, and \<open>n\<close> lies
  between the start and \<open>k\<close> minutes after it. \<^verbatim>\<open>current_slot\<close> returns the slot from the
  start to the start plus \<open>k\<close> minutes, of width exactly \<open>k\<close> minutes, whenever Python can
  build that end; it raises \<^verbatim>\<open>OverflowError\<close> otherwise. The end can be built for every
  clock reading before the last day of the year 9999 and every width of at most one day.
\<close>

theorem current_slot_floor:
  assumes "valid_datetime n" and "0 < k"
  shows "\<exists>start. minute start = minute n div k * k
     \<and> (k = 30 \<longrightarrow> minute start = 0 \<or> minute start = 30)
     \<and> second start = 0 \<and> microsecond start = 0
     \<and> ordinal start = ordinal n \<and> hour start = hour n
     \<and> to_us start \<le> to_us n \<and> to_us n < to_us start + k * 60000000
     \<and> (if timedelta_minutes_ok k \<and> in_datetime_range (of_us (to_us start + k * 60000000))
        then \<exists>stop. current_slot n k = Inr (start, stop) \<and> add_minutes start k = Inr stop
                \<and> to_us stop - to_us start = k * 60000000
        else current_slot n k = Inl OverflowError)
     \<and> (in_datetime_range n \<and> ordinal n < MAXORDINAL \<and> k \<le> 1440 \<longrightarrow>
          timedelta_minutes_ok k \<and> in_datetime_range (of_us (to_us start + k * 60000000)))"
proof -
  define q where "q = minute n div k * k"
  from assms(1) have v: "0 \<le> minute n" "minute n < 60" "0 \<le> second n" "second n < 60"
    "0 \<le> microsecond n" "microsecond n < 1000000" "0 \<le> hour n" "hour n < 24"
    by (simp_all add: valid_datetime_def)
  have qb: "0 \<le> q" "q \<le> minute n" "minute n < q + k"
    unfolding q_def using floor_multiple_bounds [OF assms(2) v(1)] by simp_all
  have q30: "k = 30 \<Longrightarrow> q = (if minute n < 30 then 0 else 30)"
    unfolding q_def using v(1,2) by auto
  define start where "start = n\<lparr>minute := q, second := 0, microsecond := 0\<rparr>"
  have cs: "current_slot n k =
      (case add_minutes start k of Inl e \<Rightarrow> Inl e | Inr stop \<Rightarrow> Inr (start, stop))"
    unfolding start_def q_def by (rule current_slot_eq [OF assms])
  have s: "to_us start = to_us n - (minute n - q) * 60000000 - second n * 1000000 - microsecond n"
    unfolding start_def by (rule to_us_replace_minute)
  have le: "to_us start \<le> to_us n"
    using s qb(2) v(3,5) by simp
  have "minute n - q + 1 \<le> k" using qb(3) by simp
  then have "(minute n - q + 1) * 60000000 \<le> k * 60000000" by simp
  then have lt: "to_us n < to_us start + k * 60000000"
    using s v(4,6) by (simp add: algebra_simps)
  have m30: "k = 30 \<longrightarrow> minute start = 0 \<or> minute start = 30"
    using q30 by (simp add: start_def)
  have f: "minute start = minute n div k * k" "second start = 0" "microsecond start = 0"
    "ordinal start = ordinal n" "hour start = hour n"
    by (simp_all add: start_def q_def)
  have res: "if timedelta_minutes_ok k \<and> in_datetime_range (of_us (to_us start + k * 60000000))
        then \<exists>stop. current_slot n k = Inr (start, stop) \<and> add_minutes start k = Inr stop
                \<and> to_us stop - to_us start = k * 60000000
        else current_slot n k = Inl OverflowError"
    unfolding cs by (simp add: add_minutes_eq to_us_of_us)
  have fits: "in_datetime_range n \<and> ordinal n < MAXORDINAL \<and> k \<le> 1440 \<longrightarrow>
          timedelta_minutes_ok k \<and> in_datetime_range (of_us (to_us start + k * 60000000))"
  proof
    assume h: "in_datetime_range n \<and> ordinal n < MAXORDINAL \<and> k \<le> 1440"
    have m: "0 \<le> minute start" "minute start < 60"
      using qb v(2) by (simp_all add: start_def)
    have hh: "0 \<le> hour start" "hour start < 24"
      using v(7,8) by (simp_all add: start_def)
    from h have h1: "in_datetime_range n" and h2: "ordinal n < MAXORDINAL" and h3: "k \<le> 1440"
      by simp_all
    show "timedelta_minutes_ok k \<and> in_datetime_range (of_us (to_us start + k * 60000000))"
      by (rule add_minutes_fits [OF h1 h2 assms(2) h3 f(4) hh m f(2,3)])
  qed
  from f m30 le lt res fits show ?thesis by (intro exI [of _ start] conjI)
qed

theorem current_slot_floor_witness:
  "valid_datetime now_0907 \<and> (0::int) < 30 \<and> in_datetime_range now_0907
   \<and> ordinal now_0907 < MAXORDINAL \<and> (30::int) \<le> 1440
   \<and> current_slot now_0907 30 = Inr (slot_0900, slot_0930)
   \<and> current_slot now_0907 10000000000 = Inl OverflowError"
proof -
  have v: "valid_datetime now_0907" by (simp add: valid_datetime_def now_0907_def)
  have k: "(0::int) < 30" by simp
  have r: "in_datetime_range now_0907" "ordinal now_0907 < MAXORDINAL"
    by (simp_all add: in_datetime_range_def now_0907_def MINORDINAL_def MAXORDINAL_def)
  from current_slot_floor [OF v k] obtain start where
    f: "minute start = minute now_0907 div 30 * 30" "second start = 0" "microsecond start = 0"
      "ordinal start = ordinal now_0907" "hour start = hour now_0907"
    and c: "if timedelta_minutes_ok 30 \<and> in_datetime_range (of_us (to_us start + 30 * 60000000))
        then \<exists>stop. current_slot now_0907 30 = Inr (start, stop) \<and> add_minutes start 30 = Inr stop
                \<and> to_us stop - to_us start = 30 * 60000000
        else current_slot now_0907 30 = Inl OverflowError"
    and g: "in_datetime_range now_0907 \<and> ordinal now_0907 < MAXORDINAL \<and> (30::int) \<le> 1440 \<longrightarrow>
          timedelta_minutes_ok 30 \<and> in_datetime_range (of_us (to_us start + 30 * 60000000))"
    by blast
  from f have s: "start = slot_0900"
    by (cases start) (simp add: now_0907_def slot_0900_def)
  from g r have "timedelta_minutes_ok 30 \<and> in_datetime_range (of_us (to_us start + 30 * 60000000))"
    by simp
  with c obtain stop where st: "current_slot now_0907 30 = Inr (start, stop)"
    "add_minutes start 30 = Inr stop"
    by auto
  have "add_minutes slot_0900 30 = Inr slot_0930" by code_simp
  with st s have a: "current_slot now_0907 30 = Inr (slot_0900, slot_0930)" by simp
  have b: "current_slot now_0907 10000000000 = Inl OverflowError" by code_simp
  from v r a b show ?thesis by simp
qed

text \<open>
  C8, as the code has it. In exact-now mode \<^verbatim>\<open>compute_slot_for_time\<close> skips the flooring to
  the slot grid but still zeroes seconds and microseconds: with \<open>t\<close> the clock reading cut
  to its minute, it returns the slot from \<open>t\<close> to \<open>t\<close> plus \<^verbatim>\<open>slot_minutes\<close> whenever Python
  can build that end, and raises \<^verbatim>\<open>OverflowError\<close> otherwise.
\<close>

theorem exact_now_cuts_to_minute:
  assumes "valid_datetime n"
  shows "\<exists>t. ordinal t = ordinal n \<and> hour t = hour n \<and> minute t = minute n
     \<and> second t = 0 \<and> microsecond t = 0
     \<and> to_us t \<le> to_us n \<and> to_us n < to_us t + 60000000
     \<and> (if timedelta_minutes_ok (slot_minutes (cfg_work_window cfg))
            \<and> in_datetime_range
                (of_us (to_us t + slot_minutes (cfg_work_window cfg) * 60000000))
        then \<exists>stop. compute_slot_for_time cfg fake True n = Inr (t, stop)
                \<and> add_minutes t (slot_minutes (cfg_work_window cfg)) = Inr stop
                \<and> to_us stop - to_us t = slot_minutes (cfg_work_window cfg) * 60000000
        else compute_slot_for_time cfg fake True n = Inl OverflowError)"
proof -
  from assms have v: "0 \<le> second n" "second n < 60" "0 \<le> microsecond n"
    "microsecond n < 1000000"
    by (simp_all add: valid_datetime_def)
  define t where "t = replace_second n"
  define mins where "mins = slot_minutes (cfg_work_window cfg)"
  have c: "compute_slot_for_time cfg fake True n
             = (case add_minutes t mins of Inl e \<Rightarrow> Inl e | Inr stop \<Rightarrow> Inr (t, stop))"
    unfolding t_def mins_def by (simp add: compute_slot_for_time_def Let_def)
  have f: "ordinal t = ordinal n" "hour t = hour n" "minute t = minute n" "second t = 0"
    "microsecond t = 0"
    by (simp_all add: t_def replace_second_def)
  have s: "to_us t = to_us n - second n * 1000000 - microsecond n"
    by (simp add: t_def replace_second_def to_us_def algebra_simps)
  have b: "to_us t \<le> to_us n" "to_us n < to_us t + 60000000"
    using s v by simp_all
  have res: "if timedelta_minutes_ok mins \<and> in_datetime_range (of_us (to_us t + mins * 60000000))
        then \<exists>stop. compute_slot_for_time cfg fake True n = Inr (t, stop)
                \<and> add_minutes t mins = Inr stop
                \<and> to_us stop - to_us t = mins * 60000000
        else compute_slot_for_time cfg fake True n = Inl OverflowError"
    unfolding c by (simp add: add_minutes_eq to_us_of_us)
  from f b res show ?thesis
    unfolding mins_def by (intro exI [of _ t] conjI)
qed

theorem exact_now_cuts_to_minute_witness:
  "valid_datetime now_0907 \<and>
   compute_slot_for_time default_config None True now_0907 = Inr (slot_0907, slot_0937)"
proof -
  have v: "valid_datetime now_0907" by (simp add: valid_datetime_def now_0907_def)
  from exact_now_cuts_to_minute [OF v, of default_config None] obtain t where
    f: "ordinal t = ordinal now_0907" "hour t = hour now_0907" "minute t = minute now_0907"
      "second t = 0" "microsecond t = 0"
    and c: "if timedelta_minutes_ok (slot_minutes (cfg_work_window default_config))
            \<and> in_datetime_range
                (of_us (to_us t + slot_minutes (cfg_work_window default_config) * 60000000))
        then \<exists>stop. compute_slot_for_time default_config None True now_0907 = Inr (t, stop)
                \<and> add_minutes t (slot_minutes (cfg_work_window default_config)) = Inr stop
                \<and> to_us stop - to_us t
                    = slot_minutes (cfg_work_window default_config) * 60000000
        else compute_slot_for_time default_config None True now_0907 = Inl OverflowError"
    by blast
  from f have t: "t = slot_0907"
    by (cases t) (simp add: now_0907_def slot_0907_def)
  have a: "add_minutes slot_0907 (slot_minutes (cfg_work_window default_config)) = Inr slot_0937"
    by code_simp
  then have "timedelta_minutes_ok (slot_minutes (cfg_work_window default_config))
            \<and> in_datetime_range
                (of_us (to_us slot_0907
                   + slot_minutes (cfg_work_window default_config) * 60000000))"
    by (simp add: add_minutes_eq split: if_splits)
  with c t a have "compute_slot_for_time default_config None True now_0907
      = Inr (slot_0907, slot_0937)"
    by auto
  with v show ?thesis by simp
qed

text \<open>
  C8, as the claim states it, fails: at 09:07:42.25 the slot returned in exact-now mode
  runs from 09:07:00 to 09:37:00, not from the clock reading to 30 minutes after it.
\<close>

theorem exact_now_not_unquantized:
  "compute_slot_for_time default_config None True now_0907 = Inr (slot_0907, slot_0937)
   \<and> add_minutes now_0907 (slot_minutes (cfg_work_window default_config)) = Inr now_0937
   \<and> (slot_0907, slot_0937) \<noteq> (now_0907, now_0937)"
  by code_simp

section \<open>The admission rule\<close>

text \<open>
  C1. Whatever the slot and the configuration, when the query returns the events \<open>evs\<close> of
  the slot (all-day items left out), \<^verbatim>\<open>should_prompt\<close> returns true for no event, returns
  for exactly one event whether its subject matches \<^verbatim>\<open>focus_title\<close> under \<^verbatim>\<open>focus_match\<close>,
  and returns false for two or more events.
\<close>

theorem should_prompt_rule:
  assumes "events_in_range items slot_start slot_end = Inr evs"
  shows "(evs = [] \<longrightarrow> should_prompt cfg items slot_start slot_end = Inr True)
     \<and> (\<forall>ev. evs = [ev] \<longrightarrow>
           should_prompt cfg items slot_start slot_end
             = Inr (is_focus_title (Subject ev) (rules_focus_title cfg) (rules_focus_match cfg)))
     \<and> (2 \<le> length evs \<longrightarrow> should_prompt cfg items slot_start slot_end = Inr False)"
  using assms by (auto simp: should_prompt_def)

theorem should_prompt_rule_witness:
  "events_in_range (calendar_with [focus_item 1]) slot_0900 slot_0930 = Inr [focus_event]
   \<and> should_prompt default_config (calendar_with [focus_item 1]) slot_0900 slot_0930 = Inr True
   \<and> events_in_range (calendar_with [standup_item]) slot_0900 slot_0930 = Inr [standup_event]
   \<and> should_prompt default_config (calendar_with [standup_item]) slot_0900 slot_0930 = Inr False
   \<and> events_in_range (calendar_with []) slot_0900 slot_0930 = Inr []
   \<and> should_prompt default_config (calendar_with []) slot_0900 slot_0930 = Inr True
   \<and> events_in_range (calendar_with [focus_item 1, focus_item 2]) slot_0900 slot_0930
       = Inr [focus_event, focus_event]
   \<and> should_prompt default_config (calendar_with [focus_item 1, focus_item 2]) slot_0900 slot_0930
       = Inr False"
proof -
  have e1: "events_in_range (calendar_with [focus_item 1]) slot_0900 slot_0930
              = Inr [focus_event]"
    by code_simp
  have e2: "events_in_range (calendar_with [standup_item]) slot_0900 slot_0930
              = Inr [standup_event]"
    by code_simp
  have e3: "events_in_range (calendar_with []) slot_0900 slot_0930 = Inr []"
    by code_simp
  have e4: "events_in_range (calendar_with [focus_item 1, focus_item 2]) slot_0900 slot_0930
              = Inr [focus_event, focus_event]"
    by code_simp
  have m1: "is_focus_title (Subject focus_event) (rules_focus_title default_config)
              (rules_focus_match default_config)"
    by code_simp
  have m2: "\<not> is_focus_title (Subject standup_event) (rules_focus_title default_config)
              (rules_focus_match default_config)"
    by code_simp
  show ?thesis
    using should_prompt_rule [OF e1, of default_config] should_prompt_rule [OF e2, of default_config]
      should_prompt_rule [OF e3, of default_config] should_prompt_rule [OF e4, of default_config]
      e1 e2 e3 e4 m1 m2
    by simp
qed

section \<open>One prompt: deletion, creation and the remembered state\<close>

lemma prompt_once_save:
  assumes "bypass \<or> (within_work_window cfg s = Inr True \<and> should_prompt cfg items s e = Inr True)"
    and "modal_result w = Save rt rc rtc"
  shows "prompt_once cfg w items s e bypass st po =
     (case (if strip rt \<noteq> [] \<and> strip rtc \<noteq> []
            then commit_entry cfg w items s e (strip rt) (strip rc) po else Inr []) of
        Inl err \<Rightarrow> Inl err
      | Inr effs \<Rightarrow>
          if ui_remember_last cfg
          then Inr (ModalShown # effs @
                      [StateWritten (st\<lparr>last_category := Some (strip rc),
                                          last_timecode := Some (strip rtc)\<rparr>)],
                    st\<lparr>last_category := Some (strip rc), last_timecode := Some (strip rtc)\<rparr>)
          else Inr (ModalShown # effs, st))"
  using assms by (auto simp: prompt_once_def Let_def split: sum.splits)

lemma prompt_once_no_save:
  assumes "modal_result w = Skip \<or> modal_result w = Snooze"
    and "prompt_once cfg w items s e bypass st po = Inr (effs, st')"
  shows "st' = st \<and> (\<forall>x. StateWritten x \<notin> set effs)"
  using assms by (auto simp: prompt_once_def Let_def split: sum.splits if_splits)

lemma restrict_slot_answer:
  assumes "restrict_slot items s e = Inr restricted"
  shows "\<exists>allday. Restrict items allday (ol_time_str s) (ol_time_str e) = Some restricted"
  using assms by (auto simp: restrict_slot_def split: option.splits)

lemma commit_entry_shape:
  assumes "restrict_slot items s e = Inr restricted"
  shows "\<exists>entry.
      commit_entry cfg w items s e subj cat po =
        Inr (delete_occurrences w (filter (is_focus_occurrence cfg) restricted) @ [entry])
    \<and> (if po then (\<exists>a b c d x y. entry = PreviewLogged a b c d x y)
       else if create_raises w then entry = CreateFailureLogged
       else (\<exists>appt. entry = AppointmentSaved appt))"
  using assms
  by (simp add: commit_entry_def find_focus_occurrences_def create_appointment_def
      preview_log_def local_and_utc_def Let_def)

text \<open>
  C2, as the code has it. On a Save result with text and timecode, for a prompt that was
  admitted (by the rules or by bypass) and a query that answers with the items
  \<open>restricted\<close>, \<^verbatim>\<open>prompt_once\<close> calls \<^verbatim>\<open>Delete()\<close> once on every item of the answer that is
  not all-day and whose subject matches \<^verbatim>\<open>focus_title\<close> under \<^verbatim>\<open>focus_match\<close>, in the order of
  the answer, however many there are. With the collection opened as the program opens it,
  which Outlook then answers without series definitions, none of these items is the
  definition of a series. Each deletion is either done or its failure logged; all of them
  come before the entry, which follows whatever the deletions did: the preview log in
  preview-only mode, else the saved appointment or the logged failure of its creation.
\<close>

theorem save_deletes_matches_then_creates:
  assumes "bypass \<or> (within_work_window cfg s = Inr True \<and> should_prompt cfg items s e = Inr True)"
    and "modal_result w = Save rt rc rtc"
    and "strip rt \<noteq> []" and "strip rtc \<noteq> []"
    and "restrict_slot items s e = Inr restricted"
    and "IncludeRecurrences items" and "expands_recurrences items"
  shows "\<exists>occs entry st'.
      prompt_once cfg w items s e bypass st preview_only
        = Inr (ModalShown # delete_occurrences w occs @ entry #
                 (if ui_remember_last cfg then [StateWritten st'] else []), st')
    \<and> occs = filter (is_focus_occurrence cfg) restricted
    \<and> (\<forall>occ \<in> set occs. RecurrenceState occ \<noteq> olApptMaster)
    \<and> (if preview_only then (\<exists>a b c d x y. entry = PreviewLogged a b c d x y)
       else if create_raises w then entry = CreateFailureLogged
       else (\<exists>appt. entry = AppointmentSaved appt))"
proof -
  let ?occs = "filter (is_focus_occurrence cfg) restricted"
  from commit_entry_shape [OF assms(5), of cfg w "strip rt" "strip rc" preview_only]
  obtain entry where
    c: "commit_entry cfg w items s e (strip rt) (strip rc) preview_only
          = Inr (delete_occurrences w ?occs @ [entry])"
    and k: "if preview_only then (\<exists>a b c d x y. entry = PreviewLogged a b c d x y)
       else if create_raises w then entry = CreateFailureLogged
       else (\<exists>appt. entry = AppointmentSaved appt)"
    by blast
  from restrict_slot_answer [OF assms(5)] obtain allday where
    a: "Restrict items allday (ol_time_str s) (ol_time_str e) = Some restricted" ..
  have ser: "\<forall>occ \<in> set ?occs. RecurrenceState occ \<noteq> olApptMaster"
  proof
    fix occ
    assume "occ \<in> set ?occs"
    then have "occ \<in> set restricted" by simp
    with assms(6,7) a show "RecurrenceState occ \<noteq> olApptMaster"
      unfolding expands_recurrences_def by blast
  qed
  show ?thesis
  proof (cases "ui_remember_last cfg")
    case True
    have "prompt_once cfg w items s e bypass st preview_only
        = Inr (ModalShown # delete_occurrences w ?occs @ entry #
                 [StateWritten (st\<lparr>last_category := Some (strip rc),
                                     last_timecode := Some (strip rtc)\<rparr>)],
               st\<lparr>last_category := Some (strip rc), last_timecode := Some (strip rtc)\<rparr>)"
      using prompt_once_save [OF assms(1,2)] assms(3,4) c True by simp
    with True k ser show ?thesis by auto
  next
    case False
    have "prompt_once cfg w items s e bypass st preview_only
        = Inr (ModalShown # delete_occurrences w ?occs @ entry # [], st)"
      using prompt_once_save [OF assms(1,2)] assms(3,4) c False by simp
    with False k ser show ?thesis by auto
  qed
qed

theorem save_deletes_matches_then_creates_witness:
  "within_work_window default_config slot_0900 = Inr True
   \<and> should_prompt default_config (calendar_with [focus_item 1]) slot_0900 slot_0930 = Inr True
   \<and> modal_result world_delete_fails = Save ''Write report'' ''Dev'' ''PROJ-1''
   \<and> strip ''Write report'' \<noteq> [] \<and> strip ''PROJ-1'' \<noteq> []
   \<and> restrict_slot (calendar_with [focus_item 1]) slot_0900 slot_0930 = Inr [focus_item 1]
   \<and> IncludeRecurrences (calendar_with [focus_item 1])
   \<and> expands_recurrences (calendar_with [focus_item 1])
   \<and> RecurrenceState (focus_item 1) = olApptOccurrence
   \<and> prompt_once default_config world_save (calendar_with [focus_item 1]) slot_0900 slot_0930
        False state0 False
       = Inr ([ModalShown, OccurrenceDeleted 1, AppointmentSaved appt_report, StateWritten state1],
              state1)
   \<and> prompt_once default_config world_delete_fails (calendar_with [focus_item 1]) slot_0900
        slot_0930 False state0 False
       = Inr ([ModalShown, DeleteFailureLogged 1, AppointmentSaved appt_report,
               StateWritten state1], state1)"
proof -
  have h1: "within_work_window default_config slot_0900 = Inr True" by code_simp
  have h2: "should_prompt default_config (calendar_with [focus_item 1]) slot_0900 slot_0930
              = Inr True"
    by code_simp
  have h3: "modal_result world_delete_fails = Save ''Write report'' ''Dev'' ''PROJ-1''"
    by (simp add: world_delete_fails_def)
  have h4: "strip ''Write report'' \<noteq> []" by code_simp
  have h5: "strip ''PROJ-1'' \<noteq> []" by code_simp
  have h6: "restrict_slot (calendar_with [focus_item 1]) slot_0900 slot_0930 = Inr [focus_item 1]"
    by (simp add: restrict_slot_def calendar_with_def outlook_open_default_calendar_def)
  have h7: "IncludeRecurrences (calendar_with [focus_item 1])"
    by (simp add: calendar_with_def outlook_open_default_calendar_def)
  have h8: "expands_recurrences (calendar_with [focus_item 1])"
    by (simp add: expands_recurrences_def calendar_with_def outlook_open_default_calendar_def
        focus_item_def)
  have h9: "RecurrenceState (focus_item 1) = olApptOccurrence"
    by (simp add: focus_item_def)
  have adm: "False \<or> (within_work_window default_config slot_0900 = Inr True
      \<and> should_prompt default_config (calendar_with [focus_item 1]) slot_0900 slot_0930 = Inr True)"
    using h1 h2 by simp
  from save_deletes_matches_then_creates [OF adm h3 h4 h5 h6 h7 h8, of state0 False]
  obtain occs entry st' where
    "prompt_once default_config world_delete_fails (calendar_with [focus_item 1]) slot_0900
        slot_0930 False state0 False
       = Inr (ModalShown # delete_occurrences world_delete_fails occs @ entry #
                (if ui_remember_last default_config then [StateWritten st'] else []), st')"
    by blast
  moreover have "prompt_once default_config world_delete_fails (calendar_with [focus_item 1])
        slot_0900 slot_0930 False state0 False
       = Inr ([ModalShown, DeleteFailureLogged 1, AppointmentSaved appt_report,
               StateWritten state1], state1)"
    by code_simp
  moreover have "prompt_once default_config world_save (calendar_with [focus_item 1])
        slot_0900 slot_0930 False state0 False
       = Inr ([ModalShown, OccurrenceDeleted 1, AppointmentSaved appt_report, StateWritten state1],
              state1)"
    by code_simp
  ultimately show ?thesis using h1 h2 h3 h4 h5 h6 h7 h8 h9 by simp
qed

text \<open>
  C2, as the claim states it, fails. With \<^verbatim>\<open>--force-bypass\<close> and two occurrences titled
  like the focus block in the slot, a Save deletes both. Without bypass, when the slot
  holds a focus block and a second one whose busy status Outlook cannot give, the
  admission query skips the second and admits the prompt on the first alone, and the Save
  deletes both.
\<close>

theorem save_deletes_two_occurrences:
  "prompt_once default_config world_save (calendar_with [focus_item 1, focus_item 2])
     slot_0900 slot_0930 True state0 False
   = Inr ([ModalShown, OccurrenceDeleted 1, OccurrenceDeleted 2, AppointmentSaved appt_report,
           StateWritten state1], state1)
   \<and> should_prompt default_config (calendar_with [focus_item 1, focus_item_unread 2])
        slot_0900 slot_0930 = Inr True
   \<and> prompt_once default_config world_save (calendar_with [focus_item 1, focus_item_unread 2])
        slot_0900 slot_0930 False state0 False
      = Inr ([ModalShown, OccurrenceDeleted 1, OccurrenceDeleted 2, AppointmentSaved appt_report,
              StateWritten state1], state1)"
  by code_simp

text \<open>
  C3 fails on the code. In preview-only mode, a prompt admitted by the rules for a slot
  that holds one focus block, answered with Save: the appointment is not created and the
  would-be entry is logged with its UTC times, but the focus block has been deleted from
  the calendar before.
\<close>

theorem preview_only_deletes_occurrence:
  "prompt_once default_config world_save (calendar_with [focus_item 1])
     slot_0900 slot_0930 False state0 True
   = Inr ([ModalShown, OccurrenceDeleted 1,
           PreviewLogged ''Write report'' None (slot_0900, - 21600) (slot_0930, - 21600)
             utc_1500 utc_1530,
           StateWritten state1], state1)"
  by code_simp

text \<open>
  C10. When the modal was shown and returned Save, \<^verbatim>\<open>remember_last\<close> is on and the query
  for focus occurrences answers, the last effect of \<^verbatim>\<open>prompt_once\<close> is the write of the
  state with the new category and timecode, whatever \<^verbatim>\<open>Delete()\<close> and the creation do
  (raise or not) and whether or not preview-only is set. A Skip or Snooze result never
  writes the state and leaves it as it was.
\<close>

theorem remembered_state_written_on_save:
  assumes "bypass \<or> (within_work_window cfg s = Inr True \<and> should_prompt cfg items s e = Inr True)"
    and "ui_remember_last cfg"
    and "modal_result w = Save rt rc rtc"
    and "find_focus_occurrences items s e cfg = Inr occs"
  shows "(\<exists>effs. prompt_once cfg w items s e bypass st preview_only
            = Inr (effs @ [StateWritten (st\<lparr>last_category := Some (strip rc),
                                               last_timecode := Some (strip rtc)\<rparr>)],
                   st\<lparr>last_category := Some (strip rc), last_timecode := Some (strip rtc)\<rparr>))
     \<and> (\<forall>w' b' p' effs st'.
           (modal_result w' = Skip \<or> modal_result w' = Snooze) \<longrightarrow>
           prompt_once cfg w' items s e b' st p' = Inr (effs, st') \<longrightarrow>
           st' = st \<and> (\<forall>x. StateWritten x \<notin> set effs))"
proof -
  have "\<exists>ce. (if strip rt \<noteq> [] \<and> strip rtc \<noteq> []
               then commit_entry cfg w items s e (strip rt) (strip rc) preview_only
               else Inr []) = Inr ce"
    using assms(4) by (simp add: commit_entry_def Let_def)
  then obtain ce where
    "(if strip rt \<noteq> [] \<and> strip rtc \<noteq> []
      then commit_entry cfg w items s e (strip rt) (strip rc) preview_only
      else Inr []) = Inr ce" ..
  with prompt_once_save [OF assms(1,3), of st preview_only] assms(2)
  have "prompt_once cfg w items s e bypass st preview_only
          = Inr ((ModalShown # ce) @ [StateWritten (st\<lparr>last_category := Some (strip rc),
                                               last_timecode := Some (strip rtc)\<rparr>)],
                 st\<lparr>last_category := Some (strip rc), last_timecode := Some (strip rtc)\<rparr>)"
    by simp
  then have a: "\<exists>effs. prompt_once cfg w items s e bypass st preview_only
            = Inr (effs @ [StateWritten (st\<lparr>last_category := Some (strip rc),
                                               last_timecode := Some (strip rtc)\<rparr>)],
                   st\<lparr>last_category := Some (strip rc), last_timecode := Some (strip rtc)\<rparr>)"
    by blast
  show ?thesis using a prompt_once_no_save by blast
qed

theorem remembered_state_written_on_save_witness:
  "within_work_window default_config slot_0900 = Inr True
   \<and> should_prompt default_config (calendar_with [focus_item 1]) slot_0900 slot_0930 = Inr True
   \<and> ui_remember_last default_config
   \<and> modal_result world_failing = Save ''Write report'' ''Dev'' ''PROJ-1''
   \<and> find_focus_occurrences (calendar_with [focus_item 1]) slot_0900 slot_0930 default_config
       = Inr [focus_item 1]
   \<and> prompt_once default_config world_failing (calendar_with [focus_item 1]) slot_0900 slot_0930
        False state0 False
       = Inr ([ModalShown, DeleteFailureLogged 1, CreateFailureLogged, StateWritten state1],
              state1)"
proof -
  have h1: "within_work_window default_config slot_0900 = Inr True" by code_simp
  have h2: "should_prompt default_config (calendar_with [focus_item 1]) slot_0900 slot_0930
              = Inr True"
    by code_simp
  have h3: "ui_remember_last default_config" by code_simp
  have h4: "modal_result world_failing = Save ''Write report'' ''Dev'' ''PROJ-1''"
    by (simp add: world_failing_def)
  have h5: "find_focus_occurrences (calendar_with [focus_item 1]) slot_0900 slot_0930
              default_config = Inr [focus_item 1]"
    by code_simp
  have adm: "False \<or> (within_work_window default_config slot_0900 = Inr True
      \<and> should_prompt default_config (calendar_with [focus_item 1]) slot_0900 slot_0930 = Inr True)"
    using h1 h2 by simp
  from remembered_state_written_on_save [OF adm h3 h4 h5, of state0 False]
  obtain effs where
    "prompt_once default_config world_failing (calendar_with [focus_item 1]) slot_0900 slot_0930
        False state0 False
       = Inr (effs @ [StateWritten (state0\<lparr>last_category := Some (strip ''Dev''),
                                            last_timecode := Some (strip ''PROJ-1'')\<rparr>)],
              state0\<lparr>last_category := Some (strip ''Dev''),
                     last_timecode := Some (strip ''PROJ-1'')\<rparr>)"
    by blast
  moreover have "prompt_once default_config world_failing (calendar_with [focus_item 1])
        slot_0900 slot_0930 False state0 False
       = Inr ([ModalShown, DeleteFailureLogged 1, CreateFailureLogged, StateWritten state1],
              state1)"
    by code_simp
  ultimately show ?thesis using h1 h2 h3 h4 h5 by simp
qed

section \<open>Local wall-clock time to UTC\<close>

text \<open>
  C6, as the code has it. \<^verbatim>\<open>_to_utc_from_local_wall\<close> subtracts the offset that the host's
  zone has at the moment of the call, whatever the datetime it converts. Read back with
  that same offset, the result is the wall-clock datetime it came from. In the
  appointment that \<^verbatim>\<open>create_appointment\<close> saves, the start and the end are converted by
  two such calls, and the duration of the slot is kept when both read the same offset.
\<close>

theorem to_utc_fixed_offset:
  assumes "valid_datetime dt"
  shows "to_utc_from_local_wall h dt = of_us (to_us dt - zone h (utc_now h) * 1000000)
     \<and> local_from_utc_fixed (local_tz h) (to_utc_from_local_wall h dt) = dt
     \<and> (\<forall>w start stop subj ocat appt.
           create_appointment w start stop subj ocat = Inr appt \<longrightarrow>
           StartUTC appt = to_utc_from_local_wall (host_start w) start
           \<and> EndUTC appt = to_utc_from_local_wall (host_end w) stop
           \<and> (local_tz (host_start w) = local_tz (host_end w) \<longrightarrow>
                to_us (EndUTC appt) - to_us (StartUTC appt) = to_us stop - to_us start))"
proof -
  have a: "to_utc_from_local_wall h dt = of_us (to_us dt - zone h (utc_now h) * 1000000)"
    by (simp add: to_utc_from_local_wall_def local_tz_def)
  have b: "local_from_utc_fixed (local_tz h) (to_utc_from_local_wall h dt) = dt"
    using assms
    by (simp add: local_from_utc_fixed_def to_utc_from_local_wall_def to_us_of_us of_us_to_us)
  have c: "StartUTC appt = to_utc_from_local_wall (host_start w) start
           \<and> EndUTC appt = to_utc_from_local_wall (host_end w) stop
           \<and> (local_tz (host_start w) = local_tz (host_end w) \<longrightarrow>
                to_us (EndUTC appt) - to_us (StartUTC appt) = to_us stop - to_us start)"
    if "create_appointment w start stop subj ocat = Inr appt"
    for w start stop subj ocat appt
    using that
    by (auto simp: create_appointment_def to_utc_from_local_wall_def to_us_of_us
        split: if_splits)
  show ?thesis using a b c by blast
qed

theorem to_utc_fixed_offset_witness:
  "valid_datetime slot_0900
   \<and> to_utc_from_local_wall host_cst slot_0900 = utc_1500
   \<and> local_from_utc_fixed (local_tz host_cst) utc_1500 = slot_0900
   \<and> create_appointment world_save slot_0900 slot_0930 ''Write report'' None = Inr appt_report
   \<and> to_us (EndUTC appt_report) - to_us (StartUTC appt_report) = to_us slot_0930 - to_us slot_0900"
proof -
  have v: "valid_datetime slot_0900" by (simp add: valid_datetime_def slot_0900_def)
  have u: "to_utc_from_local_wall host_cst slot_0900 = utc_1500" by code_simp
  have c: "create_appointment world_save slot_0900 slot_0930 ''Write report'' None
             = Inr appt_report"
    by code_simp
  have o: "local_tz (host_start world_save) = local_tz (host_end world_save)"
    by (simp add: world_save_def)
  from to_utc_fixed_offset [OF v, of host_cst]
  have r: "local_from_utc_fixed (local_tz host_cst) (to_utc_from_local_wall host_cst slot_0900)
             = slot_0900"
    and d: "create_appointment world_save slot_0900 slot_0930 ''Write report'' None = Inr appt_report
      \<longrightarrow> (local_tz (host_start world_save) = local_tz (host_end world_save) \<longrightarrow>
            to_us (EndUTC appt_report) - to_us (StartUTC appt_report)
              = to_us slot_0930 - to_us slot_0900)"
    by blast+
  from r d u c o v show ?thesis by simp
qed

text \<open>
  C6, as the claim states it, fails. On the night the clocks go back, at 01:30:02 daylight
  time, the end of the slot from 01:30 to 02:00 is converted with the offset of the moment
  of the call, five hours, to 07:00 UTC. At that instant the zone's offset is six hours:
  read back with the offset at that instant, 07:00 UTC is 01:00 local time, not the slot's
  end 02:00.
\<close>

theorem end_not_converted_at_its_instant:
  "to_utc_from_local_wall host_fall_back slot_0200 = utc_0700
   \<and> local_at_that_instant (zone host_fall_back) utc_0700 = local_0100
   \<and> local_0100 \<noteq> slot_0200"
  by code_simp

section \<open>Loading the configuration: the merge with the defaults\<close>

lemma map_of_fold_update:
  assumes "distinct (map fst kvs)"
  shows "map_of (fold (\<lambda>(k, v). AList.update k v) kvs d) k
           = (case map_of kvs k of Some v \<Rightarrow> Some v | None \<Rightarrow> map_of d k)"
  using assms
proof (induction kvs arbitrary: d)
  case Nil
  then show ?case by simp
next
  case (Cons p kvs)
  obtain a b where p: "p = (a, b)" by (cases p)
  from Cons.prems p have na: "a \<notin> fst ` set kvs" and dk: "distinct (map fst kvs)" by auto
  from na have none: "map_of kvs a = None" by (simp add: map_of_eq_None_iff)
  show ?case
    using Cons.IH [OF dk, of "AList.update a b d"] p none
    by (auto simp: update_conv' split: option.splits)
qed

lemma setdefault_present: "map_of d k = Some v \<Longrightarrow> setdefault k x d = d"
  by (simp add: setdefault_def)

lemma map_of_DEFAULTS:
  "map_of DEFAULTS ''categories'' = Some (JObj [])"
  "map_of DEFAULTS ''outlook'' = Some (JObj [(''tz_id'', JNull)])"
  by (simp_all add: DEFAULTS_def)

lemma merge_defaults_dict:
  assumes "distinct (map fst kvs)"
    and "map_of kvs ''outlook'' = None \<or> map_of kvs ''outlook'' = Some (JObj ol)"
  shows "\<exists>cfg. merge_defaults (JObj kvs) = Inr cfg
     \<and> (\<forall>k. k \<noteq> ''outlook'' \<longrightarrow>
           map_of cfg k = (case map_of kvs k of Some v \<Rightarrow> Some v | None \<Rightarrow> map_of DEFAULTS k))
     \<and> map_of cfg ''outlook''
         = Some (JObj (setdefault ''tz_id'' JNull
                   (if map_of kvs ''outlook'' = None then [(''tz_id'', JNull)] else ol)))"
proof -
  define c1 where "c1 = fold (\<lambda>(k, v). AList.update k v) kvs DEFAULTS"
  have m: "map_of c1 k = (case map_of kvs k of Some v \<Rightarrow> Some v | None \<Rightarrow> map_of DEFAULTS k)"
    for k
    unfolding c1_def by (rule map_of_fold_update [OF assms(1)])
  have cat: "\<exists>v. map_of c1 ''categories'' = Some v"
    using m [of "''categories''"] map_of_DEFAULTS(1) by (auto split: option.splits)
  then have s1: "setdefault ''categories'' (JObj []) c1 = c1"
    by (auto simp: setdefault_present)
  define ol' where "ol' = (if map_of kvs ''outlook'' = None then [(''tz_id'', JNull)] else ol)"
  have out: "map_of c1 ''outlook'' = Some (JObj ol')"
    using m [of "''outlook''"] map_of_DEFAULTS(2) assms(2) by (auto simp: ol'_def)
  then have s2: "setdefault ''outlook'' (JObj []) c1 = c1"
    by (simp add: setdefault_present)
  have t: "(if truthy (JObj kvs) then JObj kvs else JObj []) = JObj kvs"
    by simp
  have r: "merge_defaults (JObj kvs)
             = Inr (AList.update ''outlook'' (JObj (setdefault ''tz_id'' JNull ol')) c1)"
    unfolding merge_defaults_def t using s1 s2 out
    by (simp add: c1_def [symmetric] Let_def)
  show ?thesis
    using r m by (simp add: update_conv' ol'_def)
qed

lemma merge_defaults_empty: "merge_defaults (JObj []) = Inr DEFAULTS"
  by (simp add: merge_defaults_def DEFAULTS_def setdefault_def)

lemma load_config_nothing_found:
  assumes "\<forall>p. fs p = Missing \<or> fs p = Unparseable"
  shows "load_config cli fs here cwd = Inr DEFAULTS"
proof -
  have "try_load_json (fs p) = JNull" for p
    using assms [rule_format, of p] by (auto simp: try_load_json_def)
  then show ?thesis
    by (simp add: load_config_def merge_defaults_empty)
qed

text \<open>
  C9, as the code has it. Merging an override dict with distinct keys, whose \<^verbatim>\<open>outlook\<close>
  value, if there is one, is a dict, does not raise. In the merged configuration a
  top-level key of the override has the override's value as a whole, nested keys that the
  value lacks are not filled in; a top-level key that the override lacks has its default;
  and the \<^verbatim>\<open>outlook\<close> section has a \<^verbatim>\<open>tz_id\<close>, \<^verbatim>\<open>null\<close> if it was missing. A file that
  \<^verbatim>\<open>--config\<close> names and that holds a non-empty dict is the override that is merged. When
  no candidate file exists or parses, the configuration loaded is the defaults.
\<close>

theorem load_config_top_level_defaults:
  assumes "distinct (map fst kvs)"
    and "map_of kvs ''outlook'' = None \<or> map_of kvs ''outlook'' = Some (JObj ol)"
  shows "(\<exists>cfg. merge_defaults (JObj kvs) = Inr cfg
       \<and> (\<forall>k. k \<noteq> ''outlook'' \<longrightarrow>
             map_of cfg k = (case map_of kvs k of Some v \<Rightarrow> Some v | None \<Rightarrow> map_of DEFAULTS k))
       \<and> map_of cfg ''outlook''
           = Some (JObj (setdefault ''tz_id'' JNull
                     (if map_of kvs ''outlook'' = None then [(''tz_id'', JNull)] else ol))))
     \<and> (\<forall>path fs here cwd. path \<noteq> [] \<and> fs path = Parsed (JObj kvs) \<and> kvs \<noteq> [] \<longrightarrow>
           load_config (Some path) fs here cwd = merge_defaults (JObj kvs))
     \<and> (\<forall>cli fs here cwd. (\<forall>p. fs p = Missing \<or> fs p = Unparseable) \<longrightarrow>
           load_config cli fs here cwd = Inr DEFAULTS)"
proof -
  have a: "\<exists>cfg. merge_defaults (JObj kvs) = Inr cfg
       \<and> (\<forall>k. k \<noteq> ''outlook'' \<longrightarrow>
             map_of cfg k = (case map_of kvs k of Some v \<Rightarrow> Some v | None \<Rightarrow> map_of DEFAULTS k))
       \<and> map_of cfg ''outlook''
           = Some (JObj (setdefault ''tz_id'' JNull
                     (if map_of kvs ''outlook'' = None then [(''tz_id'', JNull)] else ol)))"
    by (rule merge_defaults_dict [OF assms])
  have b: "load_config (Some path) fs here cwd = merge_defaults (JObj kvs)"
    if "path \<noteq> [] \<and> fs path = Parsed (JObj kvs) \<and> kvs \<noteq> []" for path fs here cwd
    using that by (simp add: load_config_def try_load_json_def)
  have c: "load_config cli fs here cwd = Inr DEFAULTS"
    if "\<forall>p. fs p = Missing \<or> fs p = Unparseable" for cli fs here cwd
    using that by (rule load_config_nothing_found)
  from b have b': "\<forall>path fs here cwd. path \<noteq> [] \<and> fs path = Parsed (JObj kvs) \<and> kvs \<noteq> [] \<longrightarrow>
           load_config (Some path) fs here cwd = merge_defaults (JObj kvs)"
    by (intro allI impI)
  from c have c': "\<forall>cli fs here cwd. (\<forall>p. fs p = Missing \<or> fs p = Unparseable) \<longrightarrow>
           load_config cli fs here cwd = Inr DEFAULTS"
    by (intro allI impI)
  from a b' c' show ?thesis by (intro conjI)
qed

theorem load_config_top_level_defaults_witness:
  "distinct (map fst over_ui) \<and> map_of over_ui ''outlook'' = None
   \<and> merge_defaults (JObj over_ui) = Inr merged_ui
   \<and> map_of merged_ui ''work_window'' = map_of DEFAULTS ''work_window''
   \<and> map_of merged_ui ''ui'' = Some (JObj [(''snooze_minutes'', JInt 5)])
   \<and> load_config None fs_none ''config.json'' ''cwd/config.json'' = Inr DEFAULTS"
proof -
  have d: "distinct (map fst over_ui)" by (simp add: over_ui_def)
  have o: "map_of over_ui ''outlook'' = None \<or> map_of over_ui ''outlook'' = Some (JObj [])"
    by (simp add: over_ui_def)
  have n: "\<forall>p. fs_none p = Missing \<or> fs_none p = Unparseable" by (simp add: fs_none_def)
  from load_config_top_level_defaults [OF d o]
  have "\<forall>cli fs here cwd. (\<forall>p. fs p = Missing \<or> fs p = Unparseable) \<longrightarrow>
           load_config cli fs here cwd = Inr DEFAULTS"
    by (elim conjE)
  then have "(\<forall>p. fs_none p = Missing \<or> fs_none p = Unparseable) \<longrightarrow>
           load_config None fs_none ''config.json'' ''cwd/config.json'' = Inr DEFAULTS"
    by (elim allE)
  with n have l: "load_config None fs_none ''config.json'' ''cwd/config.json'' = Inr DEFAULTS"
    by (rule rev_mp)
  have m: "merge_defaults (JObj over_ui) = Inr merged_ui" by code_simp
  have w: "map_of merged_ui ''work_window'' = map_of DEFAULTS ''work_window''"
    by (simp add: merged_ui_def DEFAULTS_def)
  have u: "map_of merged_ui ''ui'' = Some (JObj [(''snooze_minutes'', JInt 5)])"
    by (simp add: merged_ui_def)
  from d o l m w u show ?thesis by (simp add: over_ui_def)
qed

text \<open>
  C9, as the claim states it, fails. A config file that names only \<^verbatim>\<open>work_window.start\<close>
  loads to a configuration whose \<^verbatim>\<open>work_window\<close> section has no \<^verbatim>\<open>end\<close>: reading it raises
  \<^verbatim>\<open>KeyError\<close>, the default 17:00 is not supplied. A config file that holds a list makes
  the loading itself raise.
\<close>

theorem nested_key_gets_no_default:
  "load_config None fs_start ''config.json'' ''cwd/config.json'' = Inr merged_start
   \<and> get_item (JObj merged_start) ''work_window'' = Inr (JObj [(''start'', JStr ''08:00'')])
   \<and> get_item (JObj [(''start'', JStr ''08:00'')]) ''end'' = Inl KeyError
   \<and> load_config None fs_list ''config.json'' ''cwd/config.json'' = Inl AttributeError"
  by code_simp

section \<open>The scheduler loop: triggers and slots\<close>

lemma key_num_parts:
  assumes "valid_key (d, h, m)"
  shows "key_num (d, h, m) mod 60 = m" and "key_num (d, h, m) div 60 mod 24 = h"
    and "key_num (d, h, m) div 60 div 24 = d"
proof -
  from assms have r: "0 \<le> h" "h < 24" "0 \<le> m" "m < 60"
    by (simp_all add: valid_key_def)
  have k: "key_num (d, h, m) = (d * 24 + h) * 60 + m"
    by (simp only: key_num_def prod.case)
  have 1: "key_num (d, h, m) div 60 = d * 24 + h"
    unfolding k by (rule divmod_step(1) [OF r(3,4)])
  show "key_num (d, h, m) mod 60 = m"
    unfolding k by (rule divmod_step(2) [OF r(3,4)])
  show "key_num (d, h, m) div 60 mod 24 = h"
    unfolding 1 by (rule divmod_step(2) [OF r(1,2)])
  show "key_num (d, h, m) div 60 div 24 = d"
    unfolding 1 by (rule divmod_step(1) [OF r(1,2)])
qed

lemma key_num_inj:
  assumes "valid_key a" and "valid_key b" and "key_num a = key_num b"
  shows "a = b"
proof -
  obtain d h m where a: "a = (d, h, m)" by (cases a)
  obtain d' h' m' where b: "b = (d', h', m')" by (cases b)
  from key_num_parts [of d h m] key_num_parts [of d' h' m'] assms a b
  show ?thesis by simp
qed

lemma slot_key_of_slot:
  assumes "valid_datetime n" and "0 < k" and "current_slot n k = Inr (s, e)"
  shows "valid_key (slot_key s)" and "key_num (slot_key s) = slot_num n k"
proof -
  from assms(1) have v: "0 \<le> hour n" "hour n < 24" "0 \<le> minute n" "minute n < 60"
    by (simp_all add: valid_datetime_def)
  have qb: "0 \<le> minute n div k * k" "minute n div k * k \<le> minute n"
    using floor_multiple_bounds [OF assms(2) v(3)] by simp_all
  have s: "s = n\<lparr>minute := minute n div k * k, second := 0, microsecond := 0\<rparr>"
    by (rule current_slot_start [OF assms])
  show "valid_key (slot_key s)"
    using v qb by (simp add: s slot_key_def valid_key_def)
  show "key_num (slot_key s) = slot_num n k"
    by (simp add: s slot_key_def key_num_def slot_num_def)
qed

lemma minutes_mono:
  assumes "valid_datetime a" and "valid_datetime b" and "to_us a \<le> to_us b"
  shows "(ordinal a * 24 + hour a) * 60 + minute a \<le> (ordinal b * 24 + hour b) * 60 + minute b"
proof -
  define A where "A = (ordinal a * 24 + hour a) * 60 + minute a"
  define B where "B = (ordinal b * 24 + hour b) * 60 + minute b"
  from assms(1,2) have v: "0 \<le> second a" "second a < 60" "0 \<le> microsecond a"
    "microsecond a < 1000000" "0 \<le> second b" "second b < 60" "0 \<le> microsecond b"
    "microsecond b < 1000000"
    by (simp_all add: valid_datetime_def)
  have ta: "to_us a = A * 60000000 + second a * 1000000 + microsecond a"
    by (simp add: to_us_def A_def)
  have tb: "to_us b = B * 60000000 + second b * 1000000 + microsecond b"
    by (simp add: to_us_def B_def)
  from assms(3) ta tb v have "A \<le> B" by linarith
  then show ?thesis by (simp add: A_def B_def)
qed

lemma slot_num_mono:
  assumes "valid_datetime a" and "valid_datetime b" and "0 < k" and "to_us a \<le> to_us b"
  shows "slot_num a k \<le> slot_num b k"
proof -
  define Ha where "Ha = ordinal a * 24 + hour a"
  define Hb where "Hb = ordinal b * 24 + hour b"
  from assms(1,2) have v: "0 \<le> minute a" "minute a < 60" "0 \<le> minute b" "minute b < 60"
    by (simp_all add: valid_datetime_def)
  have fa: "0 \<le> minute a div k * k" "minute a div k * k \<le> minute a"
    using floor_multiple_bounds [OF assms(3) v(1)] by simp_all
  have fb: "0 \<le> minute b div k * k" "minute b div k * k \<le> minute b"
    using floor_multiple_bounds [OF assms(3) v(3)] by simp_all
  have m: "Ha * 60 + minute a \<le> Hb * 60 + minute b"
    unfolding Ha_def Hb_def by (rule minutes_mono [OF assms(1,2,4)])
  have "Ha * 60 + minute a div k * k \<le> Hb * 60 + minute b div k * k"
  proof (cases "Ha = Hb")
    case True
    with m have "minute a \<le> minute b" by simp
    then have "minute a div k \<le> minute b div k"
      using assms(3) by (rule zdiv_mono1)
    then have "minute a div k * k \<le> minute b div k * k"
      using assms(3) by (simp add: mult_right_mono)
    with True show ?thesis by simp
  next
    case False
    with m v have "Ha + 1 \<le> Hb" by linarith
    then have "Ha * 60 + 60 \<le> Hb * 60" by simp
    with fa fb v show ?thesis by linarith
  qed
  then show ?thesis by (simp add: slot_num_def Ha_def Hb_def)
qed

lemma boundary_trigger_cases:
  assumes "boundary_trigger st key n = (st1, a1)"
  shows "(a1 = [] \<and> st1 = st)
     \<or> (a1 = [(Boundary, key)] \<and> last_slot_key_prompted st1 = Some key
          \<and> last_slot_key_prompted st \<noteq> Some key)"
  using assms by (simp add: boundary_trigger_def split: if_splits) auto

lemma resume_trigger_cases:
  assumes "resume_trigger st1 key idle = (st2, a2)"
  shows "(a2 = [] \<and> last_slot_key_prompted st2 = last_slot_key_prompted st1)
     \<or> (a2 = [(Resume, key)] \<and> last_slot_key_prompted st2 = Some key
          \<and> last_slot_key_prompted st1 \<noteq> Some key)"
  using assms by (simp add: resume_trigger_def Let_def split: if_splits) auto

lemma tick_inside:
  assumes "within_work_window cfg (now ob) = Inr True"
    and "current_slot (slot_now ob) k = Inr (s, e)"
  shows "tick cfg k st ob =
     Inr (fst (resume_trigger (fst (boundary_trigger st (slot_key s) (now ob))) (slot_key s)
                 (idle_ms ob)),
          snd (boundary_trigger st (slot_key s) (now ob)) @
          snd (resume_trigger (fst (boundary_trigger st (slot_key s) (now ob))) (slot_key s)
                 (idle_ms ob)))"
  using assms by (simp add: tick_def Let_def split_beta)

lemma tick_attempts:
  assumes "tick cfg k st ob = Inr (st', as)" and "valid_datetime (slot_now ob)" and "0 < k"
  shows "(as = [] \<and> last_slot_key_prompted st' = last_slot_key_prompted st)
     \<or> (\<exists>t key. as = [(t, key)] \<and> last_slot_key_prompted st' = Some key
           \<and> last_slot_key_prompted st \<noteq> Some key
           \<and> valid_key key \<and> key_num key = slot_num (slot_now ob) k)"
proof (cases "within_work_window cfg (now ob) = Inr True")
  case False
  with assms(1) show ?thesis
    by (auto simp: tick_def split: sum.splits if_splits)
next
  case True
  from assms(1) True obtain s e where cs: "current_slot (slot_now ob) k = Inr (s, e)"
    by (auto simp: tick_def split: sum.splits)
  define key where "key = slot_key s"
  have sk: "valid_key key" "key_num key = slot_num (slot_now ob) k"
    unfolding key_def by (rule slot_key_of_slot [OF assms(2,3) cs])+
  obtain st1 a1 where b: "boundary_trigger st key (now ob) = (st1, a1)"
    by (cases "boundary_trigger st key (now ob)")
  obtain st2 a2 where r: "resume_trigger st1 key (idle_ms ob) = (st2, a2)"
    by (cases "resume_trigger st1 key (idle_ms ob)")
  from assms(1) tick_inside [OF True cs, of st] b r
  have res: "st' = st2" "as = a1 @ a2"
    by (simp_all add: key_def)
  from boundary_trigger_cases [OF b] resume_trigger_cases [OF r]
  consider (none) "a1 = []" "a2 = []" "last_slot_key_prompted st2 = last_slot_key_prompted st"
    | (boundary) "a1 = [(Boundary, key)]" "a2 = []" "last_slot_key_prompted st2 = Some key"
        "last_slot_key_prompted st \<noteq> Some key"
    | (resume) "a1 = []" "a2 = [(Resume, key)]" "last_slot_key_prompted st2 = Some key"
        "last_slot_key_prompted st \<noteq> Some key"
    by auto
  then show ?thesis
  proof cases
    case none
    with res show ?thesis by simp
  next
    case boundary
    with res sk show ?thesis by auto
  next
    case resume
    with res sk show ?thesis by auto
  qed
qed

lemma run_attempts_increasing:
  assumes "0 < k"
    and "\<forall>ob \<in> set obs. valid_datetime (slot_now ob)"
    and "sorted (map (\<lambda>ob. to_us (slot_now ob)) obs)"
    and "\<forall>key. last_slot_key_prompted st = Some key \<longrightarrow>
           valid_key key \<and> (\<forall>ob \<in> set obs. key_num key \<le> slot_num (slot_now ob) k)"
    and "run cfg k st obs = (st', as, err)"
  shows "sorted_wrt (<) (map (\<lambda>a. key_num (snd a)) as)
     \<and> (\<forall>a \<in> set as. \<forall>key. last_slot_key_prompted st = Some key \<longrightarrow>
           key_num key < key_num (snd a))"
  using assms(2-)
proof (induction obs arbitrary: st st' as err)
  case Nil
  then show ?case by simp
next
  case (Cons ob rest)
  show ?case
  proof (cases "tick cfg k st ob")
    case (Inl e)
    with Cons.prems(4) show ?thesis by simp
  next
    case (Inr p)
    obtain st1 a1 where p: "p = (st1, a1)" by (cases p)
    obtain st2 a2 err2 where r: "run cfg k st1 rest = (st2, a2, err2)"
      by (cases "run cfg k st1 rest") auto
    from Cons.prems(4) Inr p r have as: "as = a1 @ a2" by simp
    from Cons.prems(1) have vob: "valid_datetime (slot_now ob)"
      and vrest: "\<forall>ob' \<in> set rest. valid_datetime (slot_now ob')" by simp_all
    from Cons.prems(2) have srest: "sorted (map (\<lambda>ob. to_us (slot_now ob)) rest)"
      and le: "\<forall>ob' \<in> set rest. to_us (slot_now ob) \<le> to_us (slot_now ob')"
      by simp_all
    have mono: "slot_num (slot_now ob) k \<le> slot_num (slot_now ob') k" if "ob' \<in> set rest" for ob'
      using that vob vrest le assms(1) by (simp add: slot_num_mono)
    from Inr p have t: "tick cfg k st ob = Inr (st1, a1)" by simp
    note ta = tick_attempts [OF t vob assms(1)]
    have inv1: "\<forall>key. last_slot_key_prompted st1 = Some key \<longrightarrow>
           valid_key key \<and> (\<forall>ob' \<in> set rest. key_num key \<le> slot_num (slot_now ob') k)"
    proof (intro allI impI)
      fix key
      assume l: "last_slot_key_prompted st1 = Some key"
      from ta show "valid_key key \<and> (\<forall>ob' \<in> set rest. key_num key \<le> slot_num (slot_now ob') k)"
      proof
        assume "a1 = [] \<and> last_slot_key_prompted st1 = last_slot_key_prompted st"
        with l Cons.prems(3) show ?thesis by simp
      next
        assume "\<exists>t key. a1 = [(t, key)] \<and> last_slot_key_prompted st1 = Some key
           \<and> last_slot_key_prompted st \<noteq> Some key
           \<and> valid_key key \<and> key_num key = slot_num (slot_now ob) k"
        with l have "valid_key key" "key_num key = slot_num (slot_now ob) k" by auto
        with mono show ?thesis by auto
      qed
    qed
    from Cons.IH [OF vrest srest inv1 r]
    have ih1: "sorted_wrt (<) (map (\<lambda>a. key_num (snd a)) a2)"
      and ih2: "\<forall>a \<in> set a2. \<forall>key. last_slot_key_prompted st1 = Some key \<longrightarrow>
           key_num key < key_num (snd a)"
      by simp_all
    from ta show ?thesis
    proof
      assume c: "a1 = [] \<and> last_slot_key_prompted st1 = last_slot_key_prompted st"
      with as ih1 ih2 show ?thesis by simp
    next
      assume "\<exists>t key. a1 = [(t, key)] \<and> last_slot_key_prompted st1 = Some key
           \<and> last_slot_key_prompted st \<noteq> Some key
           \<and> valid_key key \<and> key_num key = slot_num (slot_now ob) k"
      then obtain t key where c: "a1 = [(t, key)]" "last_slot_key_prompted st1 = Some key"
        "last_slot_key_prompted st \<noteq> Some key" "valid_key key"
        "key_num key = slot_num (slot_now ob) k"
        by blast
      from ih2 c(2) have after: "\<forall>a \<in> set a2. key_num key < key_num (snd a)" by simp
      have before: "key_num key0 < key_num key"
        if l0: "last_slot_key_prompted st = Some key0" for key0
      proof -
        from Cons.prems(3) l0 have v0: "valid_key key0"
          and "key_num key0 \<le> slot_num (slot_now ob) k" by simp_all
        with c(5) have "key_num key0 \<le> key_num key" by simp
        moreover have "key_num key0 \<noteq> key_num key"
          using key_num_inj [OF v0 c(4)] c(3) l0 by auto
        ultimately show ?thesis by simp
      qed
      have s: "sorted_wrt (<) (map (\<lambda>a. key_num (snd a)) as)"
        using as c(1) ih1 after by simp
      have b: "\<forall>a \<in> set as. \<forall>key0. last_slot_key_prompted st = Some key0 \<longrightarrow>
           key_num key0 < key_num (snd a)"
      proof (intro ballI allI impI)
        fix a key0
        assume a: "a \<in> set as" and l0: "last_slot_key_prompted st = Some key0"
        from a as c(1) have "a = (t, key) \<or> a \<in> set a2" by auto
        then show "key_num key0 < key_num (snd a)"
        proof
          assume "a = (t, key)"
          with before [OF l0] show ?thesis by simp
        next
          assume "a \<in> set a2"
          with after have "key_num key < key_num (snd a)" by simp
          with before [OF l0] show ?thesis by simp
        qed
      qed
      from s b show ?thesis by simp
    qed
  qed
qed

lemma strictly_increasing_distinct:
  fixes f :: "'a \<Rightarrow> int"
  assumes "sorted_wrt (<) (map f xs)"
  shows "distinct xs"
proof -
  from assms have "distinct (map f xs)"
    by (simp add: strict_sorted_iff)
  then show ?thesis by (simp add: distinct_map)
qed

lemma tick_resume:
  assumes "tick cfg mins st ob = Inr (st', as)" and "(Resume, key) \<in> set as"
  shows "was_idle st \<and> idle_ms ob \<le> 60000 \<and> \<not> was_idle st'
     \<and> last_slot_key_prompted st \<noteq> Some key \<and> last_slot_key_prompted st' = Some key
     \<and> as = [(Resume, key)]"
proof -
  from assms have w: "within_work_window cfg (now ob) = Inr True"
    by (auto simp: tick_def split: sum.splits if_splits)
  from assms w obtain s e where cs: "current_slot (slot_now ob) mins = Inr (s, e)"
    by (auto simp: tick_def split: sum.splits)
  obtain st1 a1 where b: "boundary_trigger st (slot_key s) (now ob) = (st1, a1)"
    by (cases "boundary_trigger st (slot_key s) (now ob)")
  obtain st2 a2 where r: "resume_trigger st1 (slot_key s) (idle_ms ob) = (st2, a2)"
    by (cases "resume_trigger st1 (slot_key s) (idle_ms ob)")
  from assms(1) tick_inside [OF w cs, of st] b r
  have res: "st' = st2" "as = a1 @ a2" by simp_all
  from b have b': "(a1 = [] \<and> st1 = st)
      \<or> (a1 = [(Boundary, slot_key s)] \<and> last_slot_key_prompted st1 = Some (slot_key s))"
    by (auto simp: boundary_trigger_def split: if_splits)
  from r have r': "a2 = [] \<or> (a2 = [(Resume, slot_key s)] \<and> was_idle st1
      \<and> idle_ms ob \<le> 60000 \<and> last_slot_key_prompted st1 \<noteq> Some (slot_key s)
      \<and> \<not> was_idle st2 \<and> last_slot_key_prompted st2 = Some (slot_key s))"
    by (auto simp: resume_trigger_def IDLE_THRESHOLD_SEC_def Let_def split: if_splits)
  from assms(2) res b' r' show ?thesis by auto
qed

text \<open>
  C5. The idle detection of one pass of the loop. With more than 60 seconds of idle time
  it sets \<^verbatim>\<open>was_idle\<close> and does nothing else. With at most 60 seconds and \<^verbatim>\<open>was_idle\<close> set,
  it clears \<^verbatim>\<open>was_idle\<close> and calls \<^verbatim>\<open>prompt_once\<close> for the current slot only if the slot's
  key is not the key last prompted. Otherwise it does nothing. So \<^verbatim>\<open>was_idle\<close> holds after
  a pass exactly when the pass saw more than 60 seconds of idle time, a resume is signalled
  only in a pass that follows such a pass and is itself not idle, and a pass of the loop
  that makes a resume attempt makes no other attempt.
\<close>

theorem idle_debouncer_step:
  "IDLE_THRESHOLD_SEC = 60
   \<and> (idle > 60000 \<longrightarrow> resume_trigger st key idle = (st\<lparr>was_idle := True\<rparr>, []))
   \<and> (idle \<le> 60000 \<and> was_idle st \<longrightarrow>
        resume_trigger st key idle =
          (if last_slot_key_prompted st = Some key then (st\<lparr>was_idle := False\<rparr>, [])
           else (st\<lparr>was_idle := False, last_slot_key_prompted := Some key\<rparr>, [(Resume, key)])))
   \<and> (idle \<le> 60000 \<and> \<not> was_idle st \<longrightarrow> resume_trigger st key idle = (st, []))
   \<and> (was_idle (fst (resume_trigger st key idle)) \<longleftrightarrow> idle > 60000)
   \<and> (snd (resume_trigger (fst (resume_trigger st key idle)) key' idle') \<noteq> [] \<longrightarrow>
        idle > 60000 \<and> idle' \<le> 60000)
   \<and> (\<forall>cfg mins ob st' as k.
         tick cfg mins st ob = Inr (st', as) \<and> (Resume, k) \<in> set as \<longrightarrow>
         was_idle st \<and> idle_ms ob \<le> 60000 \<and> \<not> was_idle st'
         \<and> last_slot_key_prompted st \<noteq> Some k \<and> as = [(Resume, k)])"
proof -
  have a: "IDLE_THRESHOLD_SEC = 60
   \<and> (idle > 60000 \<longrightarrow> resume_trigger st key idle = (st\<lparr>was_idle := True\<rparr>, []))
   \<and> (idle \<le> 60000 \<and> was_idle st \<longrightarrow>
        resume_trigger st key idle =
          (if last_slot_key_prompted st = Some key then (st\<lparr>was_idle := False\<rparr>, [])
           else (st\<lparr>was_idle := False, last_slot_key_prompted := Some key\<rparr>, [(Resume, key)])))
   \<and> (idle \<le> 60000 \<and> \<not> was_idle st \<longrightarrow> resume_trigger st key idle = (st, []))
   \<and> (was_idle (fst (resume_trigger st key idle)) \<longleftrightarrow> idle > 60000)
   \<and> (snd (resume_trigger (fst (resume_trigger st key idle)) key' idle') \<noteq> [] \<longrightarrow>
        idle > 60000 \<and> idle' \<le> 60000)"
    by (auto simp: resume_trigger_def IDLE_THRESHOLD_SEC_def Let_def)
  have b: "\<forall>cfg mins ob st' as k.
         tick cfg mins st ob = Inr (st', as) \<and> (Resume, k) \<in> set as \<longrightarrow>
         was_idle st \<and> idle_ms ob \<le> 60000 \<and> \<not> was_idle st'
         \<and> last_slot_key_prompted st \<noteq> Some k \<and> as = [(Resume, k)]"
  proof (intro allI impI)
    fix cfg mins ob st' as k
    assume h: "tick cfg mins st ob = Inr (st', as) \<and> (Resume, k) \<in> set as"
    then have "tick cfg mins st ob = Inr (st', as)" and "(Resume, k) \<in> set as" by simp_all
    from tick_resume [OF this]
    show "was_idle st \<and> idle_ms ob \<le> 60000 \<and> \<not> was_idle st'
         \<and> last_slot_key_prompted st \<noteq> Some k \<and> as = [(Resume, k)]"
      by simp
  qed
  from a b show ?thesis by (elim conjE, intro conjI)
qed

theorem idle_debouncer_step_witness:
  "(0::int) \<le> 60000 \<and> was_idle prompted_0900_idle
   \<and> last_slot_key_prompted prompted_0900_idle = Some key_0900
   \<and> resume_trigger prompted_0900_idle key_0900 0
        = (\<lparr>last_slot_key_prompted = Some key_0900, was_idle = False\<rparr>, [])
   \<and> (90000::int) > 60000
   \<and> resume_trigger loop_init key_0900 90000
        = (\<lparr>last_slot_key_prompted = None, was_idle = True\<rparr>, [])
   \<and> run default_config 30 loop_init passes_morning
        = (\<lparr>last_slot_key_prompted = Some key_0930, was_idle = False\<rparr>,
           [(Boundary, key_0900), (Boundary, key_0930)], None)"
proof -
  have r: "run default_config 30 loop_init passes_morning
        = (\<lparr>last_slot_key_prompted = Some key_0930, was_idle = False\<rparr>,
           [(Boundary, key_0900), (Boundary, key_0930)], None)"
    by code_simp
  from idle_debouncer_step [of 0 prompted_0900_idle key_0900]
  have 1: "resume_trigger prompted_0900_idle key_0900 0
        = (\<lparr>last_slot_key_prompted = Some key_0900, was_idle = False\<rparr>, [])"
    by (simp add: prompted_0900_idle_def)
  from idle_debouncer_step [of 90000 loop_init key_0900]
  have 2: "resume_trigger loop_init key_0900 90000
        = (\<lparr>last_slot_key_prompted = None, was_idle = True\<rparr>, [])"
    by (simp add: loop_init_def)
  from 1 2 r show ?thesis by (simp add: prompted_0900_idle_def)
qed

text \<open>
  C4, as the code has it. In a run of the loop whose clock readings do not go backwards,
  with a positive slot width, no slot key is attempted twice: the boundary trigger and the
  resume trigger together call \<^verbatim>\<open>prompt_once\<close> at most once per slot. A pass makes at most
  one attempt, only for a key that differs from the key last prompted, and every attempt
  sets the key last prompted to its slot, before \<^verbatim>\<open>prompt_once\<close> decides whether to prompt.
\<close>

theorem one_attempt_per_slot:
  assumes "0 < mins"
    and "\<forall>ob \<in> set obs. valid_datetime (slot_now ob)"
    and "sorted (map (\<lambda>ob. to_us (slot_now ob)) obs)"
  shows "distinct (map snd (fst (snd (run cfg mins loop_init obs))))
     \<and> (\<forall>st ob st' as. ob \<in> set obs \<and> tick cfg mins st ob = Inr (st', as) \<longrightarrow>
           (as = [] \<and> last_slot_key_prompted st' = last_slot_key_prompted st)
           \<or> (\<exists>t key. as = [(t, key)] \<and> last_slot_key_prompted st' = Some key
                 \<and> last_slot_key_prompted st \<noteq> Some key))"
proof -
  obtain st' as err where r: "run cfg mins loop_init obs = (st', as, err)"
    by (cases "run cfg mins loop_init obs") auto
  have i: "\<forall>key. last_slot_key_prompted loop_init = Some key \<longrightarrow>
           valid_key key \<and> (\<forall>ob \<in> set obs. key_num key \<le> slot_num (slot_now ob) mins)"
    by (simp add: loop_init_def)
  from run_attempts_increasing [OF assms i r]
  have "sorted_wrt (<) (map (\<lambda>a. key_num (snd a)) as)" by simp
  then have "sorted_wrt (<) (map key_num (map snd as))" by (simp add: comp_def)
  then have "distinct (map snd as)" by (rule strictly_increasing_distinct)
  with r have d: "distinct (map snd (fst (snd (run cfg mins loop_init obs))))" by simp
  have t: "(as = [] \<and> last_slot_key_prompted st' = last_slot_key_prompted st)
           \<or> (\<exists>t key. as = [(t, key)] \<and> last_slot_key_prompted st' = Some key
                 \<and> last_slot_key_prompted st \<noteq> Some key)"
    if "ob \<in> set obs \<and> tick cfg mins st ob = Inr (st', as)" for st ob st' as
  proof -
    from that assms(2) have "tick cfg mins st ob = Inr (st', as)"
      and "valid_datetime (slot_now ob)" by simp_all
    from tick_attempts [OF this assms(1)] show ?thesis by blast
  qed
  from t have t': "\<forall>st ob st' as. ob \<in> set obs \<and> tick cfg mins st ob = Inr (st', as) \<longrightarrow>
           (as = [] \<and> last_slot_key_prompted st' = last_slot_key_prompted st)
           \<or> (\<exists>t key. as = [(t, key)] \<and> last_slot_key_prompted st' = Some key
                 \<and> last_slot_key_prompted st \<noteq> Some key)"
    by (intro allI impI)
  from d t' show ?thesis by (intro conjI)
qed

theorem one_attempt_per_slot_witness:
  "(0::int) < 30
   \<and> list_all (\<lambda>ob. valid_datetime (slot_now ob)) passes_snoozed
   \<and> sorted (map (\<lambda>ob. to_us (slot_now ob)) passes_snoozed)
   \<and> distinct (map snd (fst (snd (run default_config 30 loop_init passes_snoozed))))
   \<and> fst (snd (run default_config 30 loop_init passes_snoozed))
       = [(Boundary, key_0900), (Resume, key_0930)]"
proof -
  have k: "(0::int) < 30" by simp
  have v: "list_all (\<lambda>ob. valid_datetime (slot_now ob)) passes_snoozed" by code_simp
  then have v': "\<forall>ob \<in> set passes_snoozed. valid_datetime (slot_now ob)"
    by (simp add: list_all_iff)
  have s: "sorted (map (\<lambda>ob. to_us (slot_now ob)) passes_snoozed)" by code_simp
  from one_attempt_per_slot [OF k v' s, of default_config]
  have d: "distinct (map snd (fst (snd (run default_config 30 loop_init passes_snoozed))))"
    by (elim conjE)
  have r: "fst (snd (run default_config 30 loop_init passes_snoozed))
       = [(Boundary, key_0900), (Resume, key_0930)]"
    by code_simp
  from k v s d r show ?thesis by (intro conjI)
qed

text \<open>
  C4, as the claim states it, fails. The prompt of 09:00 is snoozed and the loop sleeps
  until 09:30:30 with the user away; the user is back at 09:30:41. The resume trigger
  attempts the slot of 09:30, and the boundary trigger never fires for that slot, not even
  in the passes of 09:31:00 and 09:31:01: the slot has no attempt from the boundary
  trigger and one from the resume trigger.
\<close>

theorem slot_without_boundary_attempt:
  "run default_config 30 loop_init passes_snoozed
   = (\<lparr>last_slot_key_prompted = Some key_0930, was_idle = False\<rparr>,
      [(Boundary, key_0900), (Resume, key_0930)], None)"
  by code_simp

end
